theory Spec2Isabelle
  imports Main "HOL-Library.Word" "HOL-Library.Signed_Division"
begin

unbundle bit_operations_syntax

section \<open>The transaction pipeline of blzgo, embedded in HOL\<close>

text \<open>
  The Go package \<open>bluzelle\<close> submits signed transactions to a ledger over HTTP/JSON. This
  theory embeds its transaction pipeline: \<open>LeaseInfo.ToBlocks\<close>, \<open>APIQuery\<close>, \<open>APIMutate\<close>,
  \<open>parseResponse\<close>, \<open>SendTransaction\<close>, \<open>ProcessTransaction\<close>, \<open>ValidateTransaction\<close>,
  \<open>BroadcastTransaction\<close>, \<open>SignTransaction\<close>, \<open>makeRandomString\<close> and \<open>serializeSig\<close>.

  Conventions of the embedding.
  \<^item> Go's \<open>int\<close>, \<open>int64\<close> and \<open>uint64\<close> are 64-bit words (a 64-bit target): \<open>+\<close> and \<open>*\<close> wrap,
    comparisons of \<open>int\<close> read the word with \<open>sint\<close>.
  \<^item> A Go return \<open>(value, error)\<close> is a pair of options (\<open>None\<close> is \<open>nil\<close>); a run-time
    panic is the value \<open>Panic\<close> of the type \<open>go\<close>.
  \<^item> The outside world is explicit. What the program does to it is a chronological list
    of events (clock readings, HTTP exchanges, sleeps, account lookups); what it answers
    is a record \<open>env\<close> of oracles, the n-th answer of each kind being a function of n.
  \<^item> A struct field keeps Go's name where the name is unique in the package, and is
    prefixed with the initials of its struct otherwise.
  \<^item> Logging (\<open>Infof\<close>, \<open>Warnf\<close>, \<open>Errorf\<close>) has no effect on results and is left out.
\<close>

subsection \<open>Machine integers, bytes, errors, panics\<close>

type_synonym byte = "8 word"
type_synonym go_int = "64 word"
type_synonym int64 = "64 word"
type_synonym uint64 = "64 word"

datatype error =
    Errorf string
  | ErrSyntax
  | ErrRange
  | JsonSyntaxError
  | JsonTypeError
  | RequestError string
  | TransportError string
  | BodyReadError string
  | InvalidByteError char
  | ErrLength
  | SignError string
  | AccountError string

datatype 'a go = Panic string | Return 'a

definition nil_dereference :: string where
  "nil_dereference = ''invalid memory address or nil pointer dereference''"

definition slice_bounds :: string where
  "slice_bounds = ''slice bounds out of range''"

text \<open>Go's \<open>/\<close> on signed integers truncates towards zero.\<close>

definition go_div :: "int64 \<Rightarrow> int64 \<Rightarrow> int64" where
  "go_div a b = word_of_int (sint a sdiv sint b)"

definition sle :: "go_int \<Rightarrow> go_int \<Rightarrow> bool" where
  "sle a b = (sint a \<le> sint b)"

subsection \<open>Package constants\<close>

definition TX_COMMAND :: string where
  "TX_COMMAND = ''/txs''"

definition TOKEN_NAME :: string where
  "TOKEN_NAME = ''ubnt''"

definition BROADCAST_MAX_RETRIES :: go_int where
  "BROADCAST_MAX_RETRIES = 10"

text \<open>\<open>time.Second\<close>, in nanoseconds.\<close>

definition BROADCAST_RETRY_INTERVAL :: int where
  "BROADCAST_RETRY_INTERVAL = 1000000000"

definition BLOCK_TIME_IN_SECONDS :: int64 where
  "BLOCK_TIME_IN_SECONDS = 5"

subsection \<open>LeaseInfo\<close>

record LeaseInfo =
  Days :: int64
  Hours :: int64
  Minutes :: int64
  Seconds :: int64

definition ToBlocks :: "LeaseInfo \<Rightarrow> int64" where
  "ToBlocks lease =
     (let seconds = 0;
          seconds = seconds + Days lease * 24 * 60 * 60;
          seconds = seconds + Hours lease * 60 * 60;
          seconds = seconds + Minutes lease * 60;
          seconds = seconds + Seconds lease
      in go_div seconds BLOCK_TIME_IN_SECONDS)"

subsection \<open>strconv\<close>

text \<open>
  \<open>strconv.Atoi\<close>, \<open>strconv.Itoa\<close>, \<open>strconv.FormatInt\<close> and \<open>strconv.FormatUint\<close> in base 10.
  \<open>Atoi\<close> returns a value also with an error: 0 with a syntax error, the nearest bound of
  \<open>int\<close> with a range error. \<open>ParseUint\<close> stops at the first digit that takes the value past
  64 bits, before it has looked at the characters behind it.
\<close>

definition is_digit :: "char \<Rightarrow> bool" where
  "is_digit c = (48 \<le> (of_char c :: nat) \<and> (of_char c :: nat) \<le> 57)"

definition digit_val :: "char \<Rightarrow> nat" where
  "digit_val c = of_char c - 48"

fun ParseUint :: "string \<Rightarrow> nat \<Rightarrow> nat \<times> error option" where
  "ParseUint [] n = (n, None)"
| "ParseUint (c # cs) n =
     (if \<not> is_digit c then (0, Some ErrSyntax)
      else let n1 = n * 10 + digit_val c
           in if n1 > 2 ^ 64 - 1 then (2 ^ 64 - 1, Some ErrRange) else ParseUint cs n1)"

definition Atoi :: "string \<Rightarrow> go_int \<times> error option" where
  "Atoi s =
     (if s = [] then (0, Some ErrSyntax)
      else let neg = (hd s = CHR ''-'');
               s1 = (if hd s = CHR ''+'' \<or> hd s = CHR ''-'' then tl s else s)
           in if s1 = [] then (0, Some ErrSyntax)
              else case ParseUint s1 0 of
                     (un, Some ErrSyntax) \<Rightarrow> (0, Some ErrSyntax)
                   | (un, _) \<Rightarrow>
                       if \<not> neg \<and> un \<ge> 2 ^ 63 then (2 ^ 63 - 1, Some ErrRange)
                       else if neg \<and> un > 2 ^ 63 then (- (2 ^ 63), Some ErrRange)
                       else (if neg then - of_nat un else of_nat un, None))"

definition digit_char :: "nat \<Rightarrow> char" where
  "digit_char d = ''0123456789'' ! d"

fun FormatNat :: "nat \<Rightarrow> string" where
  "FormatNat n = (if n < 10 then [digit_char n] else FormatNat (n div 10) @ [digit_char (n mod 10)])"

declare FormatNat.simps [simp del]

definition FormatInt :: "int64 \<Rightarrow> string" where
  "FormatInt i = (if sint i < 0 then CHR ''-'' # FormatNat (nat (- sint i)) else FormatNat (nat (sint i)))"

definition FormatUint :: "uint64 \<Rightarrow> string" where
  "FormatUint u = FormatNat (unat u)"

definition Itoa :: "go_int \<Rightarrow> string" where
  "Itoa i = FormatInt i"

text \<open>The number a string of digits stands for, read from the left onto \<open>acc\<close>.\<close>

definition digits_val :: "string \<Rightarrow> nat \<Rightarrow> nat" where
  "digits_val ds acc = foldl (\<lambda>a c. a * 10 + digit_val c) acc ds"

subsection \<open>strings.Contains\<close>

definition Contains :: "string \<Rightarrow> string \<Rightarrow> bool" where
  "Contains s substr = list_ex (\<lambda>i. take (length substr) (drop i s) = substr) [0..<Suc (length s)]"

subsection \<open>encoding/hex\<close>

text \<open>
  \<open>hex.DecodeString\<close> returns the bytes decoded before the first fault together with the
  error: both components of the pair can be set.
\<close>

definition fromHexChar :: "char \<Rightarrow> byte option" where
  "fromHexChar c =
     (let n = (of_char c :: nat)
      in if 48 \<le> n \<and> n \<le> 57 then Some (of_nat (n - 48))
         else if 97 \<le> n \<and> n \<le> 102 then Some (of_nat (n - 97 + 10))
         else if 65 \<le> n \<and> n \<le> 70 then Some (of_nat (n - 65 + 10))
         else None)"

fun hex_Decode :: "string \<Rightarrow> byte list \<times> error option" where
  "hex_Decode (p # q # src) =
     (case fromHexChar p of
        None \<Rightarrow> ([], Some (InvalidByteError p))
      | Some a \<Rightarrow>
          (case fromHexChar q of
             None \<Rightarrow> ([], Some (InvalidByteError q))
           | Some b \<Rightarrow>
               (case hex_Decode src of (dst, err) \<Rightarrow> ((push_bit 4 a OR b) # dst, err))))"
| "hex_Decode [p] =
     (case fromHexChar p of
        None \<Rightarrow> ([], Some (InvalidByteError p))
      | Some a \<Rightarrow> ([], Some ErrLength))"
| "hex_Decode [] = ([], None)"

definition hex_DecodeString :: "string \<Rightarrow> byte list option \<times> error option" where
  "hex_DecodeString s = (case hex_Decode s of (dst, err) \<Rightarrow> (Some dst, err))"

subsection \<open>encoding/base64, the standard padded encoding\<close>

definition encodeStd :: string where
  "encodeStd = ''ABCDEFGHIJKLMNOPQRSTUVWXYZabcdefghijklmnopqrstuvwxyz0123456789+/''"

definition StdPadding :: char where
  "StdPadding = CHR ''=''"

definition b64_char :: "nat \<Rightarrow> char" where
  "b64_char v = encodeStd ! (v mod 64)"

fun EncodeToString :: "byte list \<Rightarrow> string" where
  "EncodeToString (a # b # c # src) =
     (let val = unat a * 65536 + unat b * 256 + unat c
      in [b64_char (val div 262144), b64_char (val div 4096), b64_char (val div 64), b64_char val]
         @ EncodeToString src)"
| "EncodeToString [a, b] =
     (let val = unat a * 65536 + unat b * 256
      in [b64_char (val div 262144), b64_char (val div 4096), b64_char (val div 64), StdPadding])"
| "EncodeToString [a] =
     (let val = unat a * 65536
      in [b64_char (val div 262144), b64_char (val div 4096), StdPadding, StdPadding])"
| "EncodeToString [] = []"

text \<open>
  The decoder of the same encoding (RFC 4648, padding required, trailing bits not checked),
  used to read a signature string back.
\<close>

fun find_index :: "char \<Rightarrow> string \<Rightarrow> nat option" where
  "find_index c [] = None"
| "find_index c (x # xs) = (if c = x then Some 0 else map_option Suc (find_index c xs))"

definition b64_index :: "char \<Rightarrow> nat option" where
  "b64_index c = find_index c encodeStd"

fun DecodeString :: "string \<Rightarrow> byte list option" where
  "DecodeString (c1 # c2 # c3 # c4 # src) =
     (case (b64_index c1, b64_index c2) of
        (Some i1, Some i2) \<Rightarrow>
          if src = [] \<and> c3 = StdPadding \<and> c4 = StdPadding then
            Some [of_nat ((i1 * 64 + i2) div 16)]
          else
            (case b64_index c3 of
               None \<Rightarrow> None
             | Some i3 \<Rightarrow>
                 if src = [] \<and> c4 = StdPadding then
                   (let val = (i1 * 64 + i2) * 64 + i3
                    in Some [of_nat (val div 1024), of_nat (val div 4)])
                 else
                   (case b64_index c4 of
                      None \<Rightarrow> None
                    | Some i4 \<Rightarrow>
                        (let val = ((i1 * 64 + i2) * 64 + i3) * 64 + i4
                         in map_option
                              (\<lambda>dst. [of_nat (val div 65536), of_nat (val div 256), of_nat val] @ dst)
                              (DecodeString src))))
      | _ \<Rightarrow> None)"
| "DecodeString [] = Some []"
| "DecodeString _ = None"

subsection \<open>math/big: the big-endian bytes of a magnitude\<close>

fun big_Bytes :: "nat \<Rightarrow> byte list" where
  "big_Bytes n = (if n = 0 then [] else big_Bytes (n div 256) @ [of_nat (n mod 256)])"

declare big_Bytes.simps [simp del]

subsection \<open>The structs of the package\<close>

record KeyValue =
  kv_Key :: string
  kv_Value :: string

record GasInfo =
  MaxGas :: go_int
  MaxFee :: go_int
  GasPrice :: go_int

record TransactionFeeAmount =
  fa_Amount :: string
  fa_Denom :: string

record TransactionFee =
  fee_Amount :: "TransactionFeeAmount option list"
  fee_Gas :: string

record TransactionSignaturePubKey =
  pk_Type :: string
  pk_Value :: string

record TransactionSignature =
  ts_AccountNumber :: string
  ts_PubKey :: "TransactionSignaturePubKey option"
  ts_Sequence :: string
  ts_Signature :: string

text \<open>
  \<open>Transaction\<close>: the channel \<open>done\<close> is the return of \<open>ProcessTransaction\<close> to
  \<open>SendTransaction\<close>.
\<close>

record Transaction =
  txn_Key :: string
  txn_KeyValues :: "KeyValue option list"
  txn_Lease :: int64
  txn_N :: uint64
  txn_NewKey :: string
  txn_Value :: string
  ApiRequestMethod :: string
  ApiRequestEndpoint :: string
  txn_GasInfo :: "GasInfo option"
  txn_result :: "byte list option"
  txn_err :: "error option"
  txn_broadcastRetries :: go_int

record TransactionValidateRequestBaseReq =
  br_From :: string
  br_ChainId :: string

record TransactionValidateRequest =
  vq_BaseReq :: "TransactionValidateRequestBaseReq option"
  vq_Key :: string
  vq_KeyValues :: "KeyValue option list"
  vq_Lease :: string
  vq_N :: string
  vq_NewKey :: string
  vq_Owner :: string
  vq_UUID :: string
  vq_Value :: string

record TransactionMsgValue =
  mv_Key :: string
  mv_KeyValues :: "KeyValue option list"
  mv_Lease :: string
  mv_N :: string
  mv_NewKey :: string
  mv_Owner :: string
  mv_UUID :: string
  mv_Value :: string

record TransactionMsg =
  msg_Type :: string
  msg_Value :: "TransactionMsgValue option"

record TransactionBroadcastPayload =
  Fee :: "TransactionFee option"
  Memo :: string
  Msg :: "TransactionMsg option list"
  Signatures :: "TransactionSignature option list"

record TransactionBroadcastPayloadSignPayload =
  sp_AccountNumber :: string
  sp_ChainId :: string
  sp_Fee :: "TransactionFee option"
  sp_Memo :: string
  sp_Msgs :: "TransactionMsg option list"
  sp_Sequence :: string

record TransactionValidateResponse =
  vs_Type :: string
  vs_Value :: "TransactionBroadcastPayload option"

record TransactionBroadcastRequest =
  bq_Transaction :: "TransactionBroadcastPayload option"
  bq_Mode :: string

record TransactionBroadcastResponse =
  Height :: string
  TxHash :: string
  Data :: string
  Codespace :: string
  Code :: go_int
  RawLog :: string
  GasWanted :: string

record ErrorResponse =
  er_Error :: string

text \<open>
  \<open>Client\<close>, its options and its account are declared outside the files at hand; the
  fields are the ones the pipeline reads and writes (\<open>ctx.options.Endpoint\<close>,
  \<open>ctx.account.Sequence\<close>, \<open>ctx.broadcastRetries\<close>, ...). The private key is part of the
  environment below.
\<close>

record Options =
  Endpoint :: string
  ChainId :: string
  UUID :: string

record Account =
  AccountNumber :: go_int
  Sequence :: go_int

record Client =
  options :: Options
  Address :: string
  account :: Account
  broadcastRetries :: go_int

text \<open>\<open>btcec.Signature\<close>: the magnitudes of the big integers R and S.\<close>

record btcec_Signature =
  sig_R :: nat
  sig_S :: nat

subsection \<open>encoding/json\<close>

text \<open>
  A response body is seen through its JSON reading: the pipeline reads bodies with
  \<open>json.Unmarshal\<close> only. \<open>NotJson\<close> stands for bytes that are no JSON text. A number is
  \<open>JInt\<close> when its literal is an integer, \<open>JReal\<close> (with the literal) otherwise: Go decodes
  only the former into an \<open>int\<close>. The members of an object are kept in the order of the
  text, repeated names included; a name is the byte string (UTF-8) that the decoder
  obtains by unquoting the key.
\<close>

datatype json =
    JNull
  | JBool bool
  | JInt int
  | JReal string
  | JString string
  | JArray "json list"
  | JObject "(string \<times> json) list"

datatype body = NotJson | Json json

text \<open>
  The decoder works by reflection, on the type of the target and on the value the target
  holds. The types of the targets here are strings, \<open>int\<close>, pointers, slices and structs (a
  struct is the list of its fields in the order of declaration, each with the name of its
  \<open>json\<close> tag). A slice value is its backing array with the number of elements in view:
  the elements beyond are kept by the array and come back into view when the slice is
  lengthened.
\<close>

datatype reflect_Type =
    TString
  | TInt
  | TPtr reflect_Type
  | TSlice reflect_Type
  | TStruct "(string \<times> reflect_Type) list"

datatype reflect_Value =
    VString string
  | VInt go_int
  | VPtr "reflect_Value option"
  | VSlice "reflect_Value list" nat
  | VStruct "reflect_Value list"

fun Zero :: "reflect_Type \<Rightarrow> reflect_Value" where
  "Zero TString = VString []"
| "Zero TInt = VInt 0"
| "Zero (TPtr t) = VPtr None"
| "Zero (TSlice t) = VSlice [] 0"
| "Zero (TStruct fs) = VStruct (map (\<lambda>f. Zero (snd f)) fs)"

text \<open>
  The name of a member is matched to the name of a field exactly or, failing that, under
  case folding: the ASCII letters without regard to case, and the two letters outside
  ASCII whose folding is an ASCII letter, U+017F (the long s, bytes C5 BF) for \<open>s\<close> and
  U+212A (the Kelvin sign, bytes E2 84 AA) for \<open>k\<close>. The field names are ASCII, so no other
  letter matters.
\<close>

definition lower :: "char \<Rightarrow> char" where
  "lower c =
     (if 65 \<le> (of_char c :: nat) \<and> (of_char c :: nat) \<le> 90
      then ''abcdefghijklmnopqrstuvwxyz'' ! ((of_char c :: nat) - 65) else c)"

fun foldName :: "string \<Rightarrow> string" where
  "foldName [] = []"
| "foldName (c # cs) =
     (if c = CHR 0xC5 \<and> take 1 cs = [CHR 0xBF] then CHR ''s'' # foldName (drop 1 cs)
      else if c = CHR 0xE2 \<and> take 2 cs = [CHR 0x84, CHR 0xAA] then CHR ''k'' # foldName (drop 2 cs)
      else lower c # foldName cs)"

definition same_name :: "string \<Rightarrow> string \<Rightarrow> bool" where
  "same_name k name = (foldName k = foldName name)"

fun find_first :: "('a \<Rightarrow> bool) \<Rightarrow> 'a list \<Rightarrow> nat option" where
  "find_first P [] = None"
| "find_first P (x # xs) = (if P x then Some 0 else map_option Suc (find_first P xs))"

definition field_of :: "(string \<times> reflect_Type) list \<Rightarrow> string \<Rightarrow> nat option" where
  "field_of fs key =
     (case find_first (\<lambda>f. fst f = key) fs of
        Some i \<Rightarrow> Some i
      | None \<Rightarrow> find_first (\<lambda>f. same_name (fst f) key) fs)"

text \<open>
  A value of the wrong JSON type for its target does not stop the decoder: the error is
  saved, the first one wins, the target is left as it is and decoding goes on;
  \<open>Unmarshal\<close> returns the saved error at the end.
\<close>

definition saveError :: "error option \<Rightarrow> error option \<Rightarrow> error option" where
  "saveError saved err = (case saved of None \<Rightarrow> err | Some e \<Rightarrow> Some e)"

fun elements :: "reflect_Value \<Rightarrow> reflect_Value list" where
  "elements (VSlice xs n) = xs"
| "elements (VStruct vs) = vs"
| "elements _ = []"

fun pointee :: "reflect_Type \<Rightarrow> reflect_Value \<Rightarrow> reflect_Value" where
  "pointee t (VPtr (Some x)) = x"
| "pointee t _ = Zero t"

text \<open>
  \<open>decode_value t j v\<close> decodes the JSON value \<open>j\<close> into a target of type \<open>t\<close> that holds
  \<open>v\<close>, and returns the new value of the target with the error saved on the way.
  \<^item> \<open>null\<close> sets a pointer and a slice to \<open>nil\<close> and leaves every other target as it is.
  \<^item> Any other value for a pointer goes to what the pointer points to, allocated (zero)
    when the pointer is \<open>nil\<close>.
  \<^item> An object for a struct is decoded member by member, in the order of the text: a
    member whose name matches no field is skipped, every other one is decoded into its
    field as the field then is. So a name that comes twice is decoded twice into the same
    field.
  \<^item> An array for a slice is decoded element by element into the elements of the backing
    array, lengthened with zero elements as needed; the slice is then cut to the number of
    elements of the array. The empty array gives a new empty slice.
\<close>

fun decode_value :: "reflect_Type \<Rightarrow> json \<Rightarrow> reflect_Value \<Rightarrow> reflect_Value \<times> error option"
and decode_object :: "(string \<times> reflect_Type) list \<Rightarrow> (string \<times> json) list \<Rightarrow> reflect_Value list \<Rightarrow>
      reflect_Value list \<times> error option"
and decode_array :: "reflect_Type \<Rightarrow> json list \<Rightarrow> reflect_Value list \<Rightarrow>
      reflect_Value list \<times> error option"
where
  "decode_value (TPtr t) JNull v = (VPtr None, None)"
| "decode_value (TPtr t) j v =
     (case decode_value t j (pointee t v) of (x, err) \<Rightarrow> (VPtr (Some x), err))"
| "decode_value (TSlice t) JNull v = (VSlice [] 0, None)"
| "decode_value (TSlice t) (JArray []) v = (VSlice [] 0, None)"
| "decode_value (TSlice t) (JArray js) v =
     (case decode_array t js (elements v) of (xs, err) \<Rightarrow> (VSlice xs (length js), err))"
| "decode_value (TStruct fs) (JObject ms) v =
     (case decode_object fs ms (elements v) of (vs, err) \<Rightarrow> (VStruct vs, err))"
| "decode_value TString (JString s) v = (VString s, None)"
| "decode_value TInt (JInt i) v =
     (if - (2 ^ 63) \<le> i \<and> i < 2 ^ 63 then (VInt (word_of_int i), None)
      else (v, Some JsonTypeError))"
| "decode_value t JNull v = (v, None)"
| "decode_value t j v = (v, Some JsonTypeError)"
| "decode_object fs [] vs = (vs, None)"
| "decode_object fs (m # ms) vs =
     (case field_of fs (fst m) of
        None \<Rightarrow> decode_object fs ms vs
      | Some i \<Rightarrow>
          (case decode_value (snd (fs ! i)) (snd m) (vs ! i) of
             (x, err) \<Rightarrow>
               (case decode_object fs ms (vs[i := x]) of
                  (vs', err') \<Rightarrow> (vs', saveError err err'))))"
| "decode_array t [] xs = (xs, None)"
| "decode_array t (j # js) xs =
     (case decode_value t j (case xs of [] \<Rightarrow> Zero t | x # rest \<Rightarrow> x) of
        (x, err) \<Rightarrow>
          (case decode_array t js (tl xs) of
             (xs', err') \<Rightarrow> (x # xs', saveError err err')))"

text \<open>Reading a decoded value back as the Go value it stands for.\<close>

fun the_string :: "reflect_Value \<Rightarrow> string" where
  "the_string (VString s) = s"
| "the_string _ = []"

fun the_int :: "reflect_Value \<Rightarrow> go_int" where
  "the_int (VInt i) = i"
| "the_int _ = 0"

fun the_ptr :: "(reflect_Value \<Rightarrow> 'a) \<Rightarrow> reflect_Value \<Rightarrow> 'a option" where
  "the_ptr f (VPtr (Some x)) = Some (f x)"
| "the_ptr f _ = None"

fun the_slice :: "(reflect_Value \<Rightarrow> 'a) \<Rightarrow> reflect_Value \<Rightarrow> 'a list" where
  "the_slice f (VSlice xs n) = map f (take n xs)"
| "the_slice f _ = []"

fun field :: "reflect_Value \<Rightarrow> nat \<Rightarrow> reflect_Value" where
  "field (VStruct vs) i = (if i < length vs then vs ! i else VStruct [])"
| "field _ i = VStruct []"

text \<open>The structs that the pipeline decodes, with the names of their \<open>json\<close> tags.\<close>

definition type_KeyValue :: reflect_Type where
  "type_KeyValue = TStruct [(''key'', TString), (''value'', TString)]"

definition as_KeyValue :: "reflect_Value \<Rightarrow> KeyValue" where
  "as_KeyValue v = \<lparr>kv_Key = the_string (field v 0), kv_Value = the_string (field v 1)\<rparr>"

definition type_TransactionFeeAmount :: reflect_Type where
  "type_TransactionFeeAmount = TStruct [(''amount'', TString), (''denom'', TString)]"

definition as_TransactionFeeAmount :: "reflect_Value \<Rightarrow> TransactionFeeAmount" where
  "as_TransactionFeeAmount v =
     \<lparr>fa_Amount = the_string (field v 0), fa_Denom = the_string (field v 1)\<rparr>"

definition type_TransactionFee :: reflect_Type where
  "type_TransactionFee =
     TStruct [(''amount'', TSlice (TPtr type_TransactionFeeAmount)), (''gas'', TString)]"

definition as_TransactionFee :: "reflect_Value \<Rightarrow> TransactionFee" where
  "as_TransactionFee v =
     \<lparr>fee_Amount = the_slice (the_ptr as_TransactionFeeAmount) (field v 0),
      fee_Gas = the_string (field v 1)\<rparr>"

definition type_TransactionSignaturePubKey :: reflect_Type where
  "type_TransactionSignaturePubKey = TStruct [(''type'', TString), (''value'', TString)]"

definition as_TransactionSignaturePubKey :: "reflect_Value \<Rightarrow> TransactionSignaturePubKey" where
  "as_TransactionSignaturePubKey v =
     \<lparr>pk_Type = the_string (field v 0), pk_Value = the_string (field v 1)\<rparr>"

definition type_TransactionSignature :: reflect_Type where
  "type_TransactionSignature =
     TStruct [(''account_number'', TString), (''pub_key'', TPtr type_TransactionSignaturePubKey),
              (''sequence'', TString), (''signature'', TString)]"

definition as_TransactionSignature :: "reflect_Value \<Rightarrow> TransactionSignature" where
  "as_TransactionSignature v =
     \<lparr>ts_AccountNumber = the_string (field v 0),
      ts_PubKey = the_ptr as_TransactionSignaturePubKey (field v 1),
      ts_Sequence = the_string (field v 2),
      ts_Signature = the_string (field v 3)\<rparr>"

definition type_TransactionMsgValue :: reflect_Type where
  "type_TransactionMsgValue =
     TStruct [(''Key'', TString), (''KeyValues'', TSlice (TPtr type_KeyValue)), (''Lease'', TString),
              (''N'', TString), (''NewKey'', TString), (''Owner'', TString), (''UUID'', TString),
              (''Value'', TString)]"

definition as_TransactionMsgValue :: "reflect_Value \<Rightarrow> TransactionMsgValue" where
  "as_TransactionMsgValue v =
     \<lparr>mv_Key = the_string (field v 0),
      mv_KeyValues = the_slice (the_ptr as_KeyValue) (field v 1),
      mv_Lease = the_string (field v 2),
      mv_N = the_string (field v 3),
      mv_NewKey = the_string (field v 4),
      mv_Owner = the_string (field v 5),
      mv_UUID = the_string (field v 6),
      mv_Value = the_string (field v 7)\<rparr>"

definition type_TransactionMsg :: reflect_Type where
  "type_TransactionMsg = TStruct [(''type'', TString), (''value'', TPtr type_TransactionMsgValue)]"

definition as_TransactionMsg :: "reflect_Value \<Rightarrow> TransactionMsg" where
  "as_TransactionMsg v =
     \<lparr>msg_Type = the_string (field v 0), msg_Value = the_ptr as_TransactionMsgValue (field v 1)\<rparr>"

definition type_TransactionBroadcastPayload :: reflect_Type where
  "type_TransactionBroadcastPayload =
     TStruct [(''fee'', TPtr type_TransactionFee), (''memo'', TString),
              (''msg'', TSlice (TPtr type_TransactionMsg)),
              (''signatures'', TSlice (TPtr type_TransactionSignature))]"

definition as_TransactionBroadcastPayload :: "reflect_Value \<Rightarrow> TransactionBroadcastPayload" where
  "as_TransactionBroadcastPayload v =
     \<lparr>Fee = the_ptr as_TransactionFee (field v 0),
      Memo = the_string (field v 1),
      Msg = the_slice (the_ptr as_TransactionMsg) (field v 2),
      Signatures = the_slice (the_ptr as_TransactionSignature) (field v 3)\<rparr>"

definition type_TransactionValidateResponse :: reflect_Type where
  "type_TransactionValidateResponse =
     TStruct [(''type'', TString), (''value'', TPtr type_TransactionBroadcastPayload)]"

definition as_TransactionValidateResponse :: "reflect_Value \<Rightarrow> TransactionValidateResponse" where
  "as_TransactionValidateResponse v =
     \<lparr>vs_Type = the_string (field v 0),
      vs_Value = the_ptr as_TransactionBroadcastPayload (field v 1)\<rparr>"

definition type_TransactionBroadcastResponse :: reflect_Type where
  "type_TransactionBroadcastResponse =
     TStruct [(''height'', TString), (''txhash'', TString), (''data'', TString),
              (''codespace'', TString), (''code'', TInt), (''raw_log'', TString),
              (''gas_wanted'', TString)]"

definition as_TransactionBroadcastResponse :: "reflect_Value \<Rightarrow> TransactionBroadcastResponse" where
  "as_TransactionBroadcastResponse v =
     \<lparr>Height = the_string (field v 0),
      TxHash = the_string (field v 1),
      Data = the_string (field v 2),
      Codespace = the_string (field v 3),
      Code = the_int (field v 4),
      RawLog = the_string (field v 5),
      GasWanted = the_string (field v 6)\<rparr>"

definition type_ErrorResponse :: reflect_Type where
  "type_ErrorResponse = TStruct [(''error'', TString)]"

definition as_ErrorResponse :: "reflect_Value \<Rightarrow> ErrorResponse" where
  "as_ErrorResponse v = \<lparr>er_Error = the_string (field v 0)\<rparr>"

text \<open>
  Decoding the members of an object into a zero struct: the struct read back, or the
  saved error.
\<close>

definition decode_struct :: "reflect_Type \<Rightarrow> (reflect_Value \<Rightarrow> 'a) \<Rightarrow> (string \<times> json) list \<Rightarrow> error + 'a" where
  "decode_struct t as ms =
     (case decode_value t (JObject ms) (Zero t) of
        (v, None) \<Rightarrow> Inr (as v)
      | (v, Some err) \<Rightarrow> Inl err)"

definition dec_TransactionValidateResponse :: "(string \<times> json) list \<Rightarrow> error + TransactionValidateResponse" where
  "dec_TransactionValidateResponse =
     decode_struct type_TransactionValidateResponse as_TransactionValidateResponse"

definition dec_TransactionBroadcastResponse :: "(string \<times> json) list \<Rightarrow> error + TransactionBroadcastResponse" where
  "dec_TransactionBroadcastResponse =
     decode_struct type_TransactionBroadcastResponse as_TransactionBroadcastResponse"

definition dec_ErrorResponse :: "(string \<times> json) list \<Rightarrow> error + ErrorResponse" where
  "dec_ErrorResponse = decode_struct type_ErrorResponse as_ErrorResponse"

text \<open>
  \<open>json.Unmarshal(data, &v)\<close> for a zero struct \<open>v\<close>: a \<open>nil\<close> slice and bytes that are no
  JSON are syntax errors, \<open>null\<close> leaves \<open>v\<close> as it is, an object is decoded member by
  member, any other JSON value is a type error. The three callers drop \<open>v\<close> when
  \<open>Unmarshal\<close> returns an error.
\<close>

definition Unmarshal :: "((string \<times> json) list \<Rightarrow> error + 'a) \<Rightarrow> 'a \<Rightarrow> body option \<Rightarrow> error + 'a" where
  "Unmarshal dec zero data =
     (case data of
        None \<Rightarrow> Inl JsonSyntaxError
      | Some NotJson \<Rightarrow> Inl JsonSyntaxError
      | Some (Json JNull) \<Rightarrow> Inr zero
      | Some (Json (JObject ms)) \<Rightarrow> dec ms
      | Some (Json _) \<Rightarrow> Inl JsonTypeError)"

text \<open>
  What the members of an object hold for one field: the values of the members that bear
  its name, in the order of the text. A string field decodes them without error when each
  is a string or \<open>null\<close>, and is left with the last string among them.
\<close>

definition members_of :: "string \<Rightarrow> (string \<times> json) list \<Rightarrow> json list" where
  "members_of name ms = map snd (filter (\<lambda>m. same_name name (fst m)) ms)"

fun string_or_null :: "json \<Rightarrow> bool" where
  "string_or_null JNull = True"
| "string_or_null (JString s) = True"
| "string_or_null _ = False"

fun is_null :: "json \<Rightarrow> bool" where
  "is_null JNull = True"
| "is_null _ = False"

fun strings_into :: "json list \<Rightarrow> string \<Rightarrow> string" where
  "strings_into [] s = s"
| "strings_into (JString x # js) s = strings_into js x"
| "strings_into (j # js) s = strings_into js s"

subsection \<open>The outside world\<close>

text \<open>
  \<open>json.Marshal\<close> of the two request structs cannot fail (they hold strings, slices and
  pointers to structs of strings); the bytes sent are represented by the value marshalled.
\<close>

datatype payload_bytes =
    NoPayload
  | Marshal_TransactionValidateRequest TransactionValidateRequest
  | Marshal_TransactionBroadcastRequest TransactionBroadcastRequest

record http_Request =
  rq_Method :: string
  rq_URL :: string
  rq_Body :: payload_bytes

text \<open>\<open>http.Response\<close>: the status code, and what \<open>ioutil.ReadAll(res.Body)\<close> returns.\<close>

datatype reader = ReadFails error | ReadAll body

record http_Response =
  StatusCode :: int
  Body :: reader

datatype exchange = Failed error | Responded http_Response

datatype event =
    ClockRead
  | HttpExchange http_Request
  | Sleep int
  | AccountLookup

fun is_clock :: "event \<Rightarrow> bool" where
  "is_clock ClockRead = True"
| "is_clock _ = False"

fun is_http :: "event \<Rightarrow> bool" where
  "is_http (HttpExchange rq) = True"
| "is_http _ = False"

fun is_lookup :: "event \<Rightarrow> bool" where
  "is_lookup AccountLookup = True"
| "is_lookup _ = False"

definition count :: "(event \<Rightarrow> bool) \<Rightarrow> event list \<Rightarrow> nat" where
  "count P w = length (filter P w)"

text \<open>
  The oracles. \<open>clock n\<close> is the n-th reading of \<open>time.Now().UnixNano()\<close>; \<open>rng seed i\<close> is the
  i-th number the generator of \<open>math/rand\<close> yields after \<open>rand.Seed(seed)\<close>; \<open>request_ok\<close> says
  whether \<open>http.NewRequest\<close> accepts a method and a URL; \<open>transport n\<close> is the outcome of the
  n-th HTTP exchange; \<open>privateKey_Sign\<close> is \<open>ctx.privateKey.Sign\<close> applied to the SHA-256 hash of
  the sanitized JSON of a sign payload (\<open>sanitizeString\<close> is not among the files at hand),
  \<open>privateKey_PubKey\<close> the base64 of the compressed public key; \<open>ledger_account n\<close> is what the
  n-th account lookup finds.
\<close>

record env =
  clock :: "nat \<Rightarrow> int"
  rng :: "int \<Rightarrow> nat \<Rightarrow> nat"
  request_ok :: "string \<Rightarrow> string \<Rightarrow> bool"
  transport :: "nat \<Rightarrow> http_Request \<Rightarrow> exchange"
  privateKey_Sign :: "TransactionBroadcastPayloadSignPayload \<Rightarrow> error + btcec_Signature"
  privateKey_PubKey :: string
  ledger_account :: "nat \<Rightarrow> error + Account"

definition PubKeyAminoName :: string where
  "PubKeyAminoName = ''tendermint/PubKeySecp256k1''"

subsection \<open>makeRandomString\<close>

definition chars :: string where
  "chars = ''ABCDEFGHIJKLMNOPQRSTUVWXYZabcdefghijklmnopqrstuvwxyz0123456789''"

text \<open>\<open>rand.Intn(n)\<close>: a number below \<open>n\<close>.\<close>

definition Intn :: "env \<Rightarrow> int \<Rightarrow> nat \<Rightarrow> nat \<Rightarrow> nat" where
  "Intn env seed i n = rng env seed i mod n"

definition random_string :: "env \<Rightarrow> int \<Rightarrow> int \<Rightarrow> string" where
  "random_string env seed len = map (\<lambda>i. chars ! Intn env seed i (length chars)) [0..<nat len]"

definition makeRandomString :: "env \<Rightarrow> event list \<Rightarrow> int \<Rightarrow> string \<times> event list" where
  "makeRandomString env w len =
     (let seed = clock env (count is_clock w);
          w = w @ [ClockRead]
      in (random_string env seed len, w))"

subsection \<open>HTTP transport: parseResponse, APIQuery, APIMutate\<close>

definition parseResponse :: "http_Response \<Rightarrow> body option \<times> error option" where
  "parseResponse res =
     (case Body res of
        ReadFails err \<Rightarrow> (None, Some err)
      | ReadAll body \<Rightarrow>
          (case Unmarshal dec_ErrorResponse \<lparr>er_Error = []\<rparr> (Some body) of
             Inl err \<Rightarrow> (None, Some err)
           | Inr errRes \<Rightarrow>
               if er_Error errRes \<noteq> [] then (None, Some (Errorf (er_Error errRes)))
               else (Some body, None)))"


text \<open>
  \<open>APIMutate\<close> drops the error of \<open>http.NewRequest\<close> and sets a header on the request: when
  the request could not be built it is \<open>nil\<close>, and setting the header panics.
\<close>

definition APIMutate :: "env \<Rightarrow> Client \<Rightarrow> event list \<Rightarrow> string \<Rightarrow> string \<Rightarrow> payload_bytes \<Rightarrow>
    (body option \<times> error option) go \<times> event list" where
  "APIMutate env ctx w method endpoint payload =
     (let url = Endpoint (options ctx) @ endpoint
      in if \<not> request_ok env method url then (Panic nil_dereference, w)
         else
           (let rq = \<lparr>rq_Method = method, rq_URL = url, rq_Body = payload\<rparr>
            in case transport env (count is_http w) rq of
                 Failed err \<Rightarrow> (Return (None, Some err), w @ [HttpExchange rq])
               | Responded res \<Rightarrow> (Return (parseResponse res), w @ [HttpExchange rq])))"

subsection \<open>setAccount\<close>

text \<open>
  Modelled from the spec: \<open>setAccount\<close> is called by \<open>BroadcastTransaction\<close> and is not among
  the files at hand. The spec says of it that it re-fetches the account state from the
  ledger (an authoritative resync); here it asks the ledger oracle, stores the account it
  finds and returns the error of a lookup that fails.
\<close>

definition setAccount :: "env \<Rightarrow> Client \<Rightarrow> event list \<Rightarrow> error option \<times> Client \<times> event list" where
  "setAccount env ctx w =
     (case ledger_account env (count is_lookup w) of
        Inl err \<Rightarrow> (Some err, ctx, w @ [AccountLookup])
      | Inr a \<Rightarrow> (None, ctx\<lparr>account := a\<rparr>, w @ [AccountLookup]))"

subsection \<open>serializeSig and SignTransaction\<close>

text \<open>\<open>copy(dst[lo:lo+len(src)], src)\<close> for a slice expression that is in range.\<close>

definition copy_into :: "byte list \<Rightarrow> nat \<Rightarrow> byte list \<Rightarrow> byte list" where
  "copy_into dst lo src = take lo dst @ src @ drop (lo + length src) dst"

text \<open>
  A slice expression with a negative low bound panics: \<open>sigBytes[32-len(rBytes):32]\<close> when
  R has more than 32 bytes, \<open>sigBytes[64-len(sBytes):64]\<close> when S has more than 64.
\<close>

definition serializeSig :: "btcec_Signature \<Rightarrow> byte list go" where
  "serializeSig sig =
     (let rBytes = big_Bytes (sig_R sig);
          sBytes = big_Bytes (sig_S sig);
          sigBytes = replicate 64 0
      in if 32 < length rBytes then Panic slice_bounds
         else
           (let sigBytes = copy_into sigBytes (32 - length rBytes) rBytes
            in if 64 < length sBytes then Panic slice_bounds
               else Return (copy_into sigBytes (64 - length sBytes) sBytes)))"

definition SignTransaction :: "env \<Rightarrow> Client \<Rightarrow> TransactionBroadcastPayload \<Rightarrow> (string \<times> error option) go" where
  "SignTransaction env ctx txn =
     (let payload =
            \<lparr>sp_AccountNumber = Itoa (AccountNumber (account ctx)),
             sp_ChainId = ChainId (options ctx),
             sp_Fee = Fee txn,
             sp_Memo = Memo txn,
             sp_Msgs = Msg txn,
             sp_Sequence = Itoa (Sequence (account ctx))\<rparr>
      in case privateKey_Sign env payload of
           Inl err \<Rightarrow> Return ([], Some err)
         | Inr s \<Rightarrow>
             (case serializeSig s of
                Panic p \<Rightarrow> Panic p
              | Return sigBytes \<Rightarrow> Return (EncodeToString sigBytes, None)))"

subsection \<open>ValidateTransaction\<close>

definition ValidateTransaction :: "env \<Rightarrow> Client \<Rightarrow> event list \<Rightarrow> Transaction \<Rightarrow>
    (TransactionBroadcastPayload option \<times> error option) go \<times> event list" where
  "ValidateTransaction env ctx w txn =
     (let req =
            \<lparr>vq_BaseReq = Some \<lparr>br_From = Address ctx, br_ChainId = ChainId (options ctx)\<rparr>,
             vq_Key = txn_Key txn,
             vq_KeyValues = txn_KeyValues txn,
             vq_Lease = FormatInt (txn_Lease txn),
             vq_N = FormatUint (txn_N txn),
             vq_NewKey = txn_NewKey txn,
             vq_Owner = Address ctx,
             vq_UUID = UUID (options ctx),
             vq_Value = txn_Value txn\<rparr>;
          reqBytes = Marshal_TransactionValidateRequest req
      in case APIMutate env ctx w (ApiRequestMethod txn) (ApiRequestEndpoint txn) reqBytes of
           (Panic p, w) \<Rightarrow> (Panic p, w)
         | (Return (body, Some err), w) \<Rightarrow> (Return (None, Some err), w)
         | (Return (body, None), w) \<Rightarrow>
             (case Unmarshal dec_TransactionValidateResponse \<lparr>vs_Type = [], vs_Value = None\<rparr> body of
                Inl err \<Rightarrow> (Return (None, Some err), w)
              | Inr res \<Rightarrow> (Return (vs_Value res, None), w)))"

subsection \<open>BroadcastTransaction\<close>

text \<open>
  The block \<open>Set fee\<close> of \<open>BroadcastTransaction\<close>. Reading \<open>txn.Fee.Gas\<close> panics when the fee
  is \<open>nil\<close>, reading \<open>txn.Fee.Amount[0].Amount\<close> when the first amount is. The error of the
  first \<open>Atoi\<close> is only logged.
\<close>

definition set_fee :: "TransactionBroadcastPayload \<Rightarrow> GasInfo \<Rightarrow> TransactionBroadcastPayload go" where
  "set_fee txn gasInfo =
     (case Fee txn of
        None \<Rightarrow> Panic nil_dereference
      | Some fee \<Rightarrow>
          (let gas = fst (Atoi (fee_Gas fee));
               amount = 0
           in case (if length (fee_Amount fee) \<noteq> 0 then
                      (case hd (fee_Amount fee) of
                         None \<Rightarrow> Panic nil_dereference
                       | Some a0 \<Rightarrow>
                           (case Atoi (fa_Amount a0) of
                              (a, None) \<Rightarrow> Return a
                            | (a, Some err) \<Rightarrow> Return amount))
                    else Return amount) of
                Panic p \<Rightarrow> Panic p
              | Return amount \<Rightarrow>
                  (let gas = (if MaxGas gasInfo \<noteq> 0 \<and> sint (MaxGas gasInfo) < sint gas
                              then MaxGas gasInfo else gas);
                       amount = (if MaxFee gasInfo \<noteq> 0 then MaxFee gasInfo
                                 else if GasPrice gasInfo \<noteq> 0 then gas * GasPrice gasInfo
                                 else amount)
                   in Return (txn\<lparr>Fee := Some
                        \<lparr>fee_Amount = [Some \<lparr>fa_Amount = Itoa amount, fa_Denom = TOKEN_NAME\<rparr>],
                         fee_Gas = Itoa gas\<rparr>\<rparr>))))"

text \<open>
  One pass of \<open>BroadcastTransaction\<close> from the memo to the decoded response: either the pass
  ends the call (\<open>Ended\<close>, with what the call returns), or the response of the ledger is
  at hand (\<open>Received\<close>, with the payload as sent).
\<close>

datatype sent =
    Ended "(byte list option \<times> error option) go" "event list"
  | Received TransactionBroadcastResponse TransactionBroadcastPayload "event list"

definition send :: "env \<Rightarrow> Client \<Rightarrow> event list \<Rightarrow> TransactionBroadcastPayload option \<Rightarrow> GasInfo option \<Rightarrow> sent" where
  "send env ctx w txn gasInfo =
     (case makeRandomString env w 32 of (memo, w) \<Rightarrow>
       (case txn of
          None \<Rightarrow> Ended (Panic nil_dereference) w
        | Some txn \<Rightarrow>
            (let txn = txn\<lparr>Memo := memo\<rparr>
             in (case gasInfo of
                   None \<Rightarrow> Ended (Return (None, Some (Errorf ''gas_info is required''))) w
                 | Some gasInfo \<Rightarrow>
                     (case set_fee txn gasInfo of
                        Panic p \<Rightarrow> Ended (Panic p) w
                      | Return txn \<Rightarrow>
                          (case SignTransaction env ctx txn of
                             Panic p \<Rightarrow> Ended (Panic p) w
                           | Return (signature, Some err) \<Rightarrow> Ended (Return (None, Some err)) w
                           | Return (signature, None) \<Rightarrow>
                               (let txn = txn\<lparr>Signatures :=
                                      [Some \<lparr>ts_AccountNumber = Itoa (AccountNumber (account ctx)),
                                             ts_PubKey = Some \<lparr>pk_Type = PubKeyAminoName,
                                                               pk_Value = privateKey_PubKey env\<rparr>,
                                             ts_Sequence = Itoa (Sequence (account ctx)),
                                             ts_Signature = signature\<rparr>]\<rparr>;
                                    req = \<lparr>bq_Transaction = Some txn, bq_Mode = ''block''\<rparr>;
                                    reqBytes = Marshal_TransactionBroadcastRequest req
                                in (case APIMutate env ctx w ''POST'' TX_COMMAND reqBytes of
                                      (Panic p, w) \<Rightarrow> Ended (Panic p) w
                                    | (Return (body, Some err), w) \<Rightarrow> Ended (Return (None, Some err)) w
                                    | (Return (body, None), w) \<Rightarrow>
                                        (case Unmarshal dec_TransactionBroadcastResponse
                                                \<lparr>Height = [], TxHash = [], Data = [], Codespace = [],
                                                 Code = 0, RawLog = [], GasWanted = []\<rparr> body of
                                           Inl err \<Rightarrow> Ended (Return (None, Some err)) w
                                         | Inr res \<Rightarrow> Received res txn w)))))))))"

text \<open>
  \<open>BroadcastTransaction\<close>: the pass above, then the reading of the response. The retry is
  the call of the function by itself, with the payload as the pass left it (the caller
  and the callee share the pointer) and the account as \<open>setAccount\<close> left it.
\<close>

function BroadcastTransaction :: "env \<Rightarrow> Client \<Rightarrow> event list \<Rightarrow> TransactionBroadcastPayload option \<Rightarrow>
    GasInfo option \<Rightarrow> (byte list option \<times> error option) go \<times> Client \<times> event list" where
  "BroadcastTransaction env ctx w txn gasInfo =
     (case send env ctx w txn gasInfo of
        Ended r w \<Rightarrow> (r, ctx, w)
      | Received res txn w \<Rightarrow>
          if Code res = 0 then
            (let ctx = ctx\<lparr>account := (account ctx)\<lparr>Sequence := Sequence (account ctx) + 1\<rparr>\<rparr>
             in if Data res = [] then (Return (Some [], None), ctx, w)
                else (Return (hex_DecodeString (Data res)), ctx, w))
          else if Contains (RawLog res) ''signature verification failed'' then
            (let ctx = ctx\<lparr>broadcastRetries := broadcastRetries ctx + 1\<rparr>
             in if sle BROADCAST_MAX_RETRIES (broadcastRetries ctx) then
                  (Return (None, Some (Errorf ''txn failed after max retry attempts'')), ctx, w)
                else
                  (let w = w @ [Sleep BROADCAST_RETRY_INTERVAL]
                   in (case setAccount env ctx w of
                         (Some err, ctx, w) \<Rightarrow> (Return (None, Some err), ctx, w)
                       | (None, ctx, w) \<Rightarrow> BroadcastTransaction env ctx w (Some txn) gasInfo)))
          else (Return (None, Some (Errorf (RawLog res))), ctx, w))"
  by pat_completeness auto

termination BroadcastTransaction
proof (relation "measure (\<lambda>(env, ctx, w, txn, gasInfo). unat (10 - broadcastRetries ctx))", goal_cases)
  case 1
  show ?case by simp
next
  case (2 env ctx w txn gasInfo res txn' w' ctx1 w1 acc err ctx2 w2)
  let ?r = "broadcastRetries ctx"
  have "broadcastRetries ctx2 = broadcastRetries ctx1"
    using 2 by (auto simp: setAccount_def split: sum.splits)
  then have r2: "broadcastRetries ctx2 = ?r + 1"
    using 2 by simp
  have "\<not> sle BROADCAST_MAX_RETRIES (?r + 1)"
    using 2 by simp
  then have "?r \<noteq> 10"
    by (auto simp: sle_def BROADCAST_MAX_RETRIES_def)
  then have "10 - ?r \<noteq> 0"
    by simp
  moreover have "unat (x - 1) < unat x" if "x \<noteq> 0" for x :: go_int
    using that by (simp add: unat_minus_one unat_gt_0)
  ultimately have "unat ((10 - ?r) - 1) < unat (10 - ?r)"
    by blast
  moreover have "(10 - ?r) - 1 = 10 - (?r + 1)"
    by simp
  ultimately have "unat (10 - (?r + 1)) < unat (10 - ?r)"
    by simp
  with r2 show ?case
    by simp
qed

declare BroadcastTransaction.simps [simp del]

subsection \<open>ProcessTransaction and SendTransaction\<close>

definition ProcessTransaction :: "env \<Rightarrow> Client \<Rightarrow> event list \<Rightarrow> Transaction \<Rightarrow>
    Transaction go \<times> Client \<times> event list" where
  "ProcessTransaction env ctx w txn =
     (let txn = txn\<lparr>txn_broadcastRetries := 0\<rparr>
      in case ValidateTransaction env ctx w txn of
           (Panic p, w) \<Rightarrow> (Panic p, ctx, w)
         | (Return (payload, err), w) \<Rightarrow>
             (case (if err = None then BroadcastTransaction env ctx w payload (txn_GasInfo txn)
                    else (Return (None, err), ctx, w)) of
                (Panic p, ctx, w) \<Rightarrow> (Panic p, ctx, w)
              | (Return (result, err), ctx, w) \<Rightarrow>
                  (Return (txn\<lparr>txn_result := result, txn_err := err\<rparr>), ctx, w)))"

text \<open>
  \<open>SendTransaction\<close> hands the record to the worker and waits for it; the worker (one per
  client) runs \<open>ProcessTransaction\<close> on one record at a time. The hand-over is the call.
\<close>

definition SendTransaction :: "env \<Rightarrow> Client \<Rightarrow> event list \<Rightarrow> Transaction \<Rightarrow>
    (byte list option \<times> error option) go \<times> Client \<times> event list" where
  "SendTransaction env ctx w txn =
     (case ProcessTransaction env ctx w txn of
        (Panic p, ctx, w) \<Rightarrow> (Panic p, ctx, w)
      | (Return txn, ctx, w) \<Rightarrow> (Return (txn_result txn, txn_err txn), ctx, w))"

subsection \<open>Consecutive submissions, and what a trace shows\<close>

text \<open>
  A caller that submits records one after the other. A panic ends the program, and with
  it the run.
\<close>

fun SendTransactions :: "env \<Rightarrow> Client \<Rightarrow> event list \<Rightarrow> Transaction list \<Rightarrow>
    (byte list option \<times> error option) go list \<times> Client \<times> event list" where
  "SendTransactions env ctx w [] = ([], ctx, w)"
| "SendTransactions env ctx w (txn # txns) =
     (case SendTransaction env ctx w txn of
        (Panic p, ctx, w) \<Rightarrow> ([Panic p], ctx, w)
      | (Return r, ctx, w) \<Rightarrow>
          (case SendTransactions env ctx w txns of
             (rs, ctx, w) \<Rightarrow> (Return r # rs, ctx, w)))"

text \<open>
  The broadcast attempts of a trace are its exchanges that carry a broadcast request; the
  memo of an attempt is the memo of the payload it carries.
\<close>

fun broadcast_payload :: "event \<Rightarrow> TransactionBroadcastPayload option" where
  "broadcast_payload (HttpExchange rq) =
     (case rq_Body rq of
        Marshal_TransactionBroadcastRequest req \<Rightarrow> bq_Transaction req
      | _ \<Rightarrow> None)"
| "broadcast_payload _ = None"

definition is_broadcast :: "event \<Rightarrow> bool" where
  "is_broadcast e = (broadcast_payload e \<noteq> None)"

definition is_sleep :: "event \<Rightarrow> bool" where
  "is_sleep e = (e = Sleep BROADCAST_RETRY_INTERVAL)"

definition memos :: "event list \<Rightarrow> string list" where
  "memos w = map Memo (List.map_filter broadcast_payload w)"

text \<open>The fees of the broadcast attempts of a trace, in order.\<close>

definition fees :: "event list \<Rightarrow> TransactionFee option list" where
  "fees w = map Fee (List.map_filter broadcast_payload w)"

text \<open>Every account lookup of a trace comes right after a sleep of the retry interval.\<close>

fun lookups_after_sleep :: "event list \<Rightarrow> bool" where
  "lookups_after_sleep (e # AccountLookup # w) = (is_sleep e \<and> lookups_after_sleep w)"
| "lookups_after_sleep (AccountLookup # w) = False"
| "lookups_after_sleep (e # w) = lookups_after_sleep w"
| "lookups_after_sleep [] = True"

subsection \<open>A stub ledger\<close>

text \<open>
  A ledger to run the pipeline against: it answers every validate request with one body
  and the broadcast request of the n-th exchange with \<open>broadcast_reply n\<close>, signs everything
  with one signature and always finds the same account. The clock advances by one at
  each reading.
\<close>

definition stub_ledger :: "body \<Rightarrow> (nat \<Rightarrow> body) \<Rightarrow> env" where
  "stub_ledger validate_reply broadcast_reply =
     \<lparr>clock = (\<lambda>n. int n),
      rng = (\<lambda>seed i. nat seed + i),
      request_ok = (\<lambda>method url. True),
      transport = (\<lambda>n rq.
        case rq_Body rq of
          Marshal_TransactionBroadcastRequest req \<Rightarrow>
            Responded \<lparr>StatusCode = 200, Body = ReadAll (broadcast_reply n)\<rparr>
        | _ \<Rightarrow> Responded \<lparr>StatusCode = 200, Body = ReadAll validate_reply\<rparr>),
      privateKey_Sign = (\<lambda>payload. Inr \<lparr>sig_R = 258, sig_S = 3\<rparr>),
      privateKey_PubKey = ''A0Zk'',
      ledger_account = (\<lambda>n. Inr \<lparr>AccountNumber = 7, Sequence = 5\<rparr>)\<rparr>"

definition template_body :: body where
  "template_body =
     Json (JObject
       [(''type'', JString ''cosmos-sdk/StdTx''),
        (''value'', JObject
          [(''msg'', JArray
             [JObject
                [(''type'', JString ''crud/create''),
                 (''value'', JObject
                    [(''Key'', JString ''k''), (''Value'', JString ''v''),
                     (''Owner'', JString ''bluzelle1''), (''UUID'', JString ''u'')])]]),
           (''fee'', JObject [(''amount'', JArray []), (''gas'', JString ''50'')]),
           (''signatures'', JNull),
           (''memo'', JString [])])])"

definition conflict_body :: body where
  "conflict_body =
     Json (JObject
       [(''height'', JString ''0''),
        (''txhash'', JString ''DEE2''),
        (''code'', JInt 4),
        (''raw_log'', JString ''unauthorized: signature verification failed; verify correct account sequence and chain-id'')])"

definition success_body :: "string \<Rightarrow> body" where
  "success_body data =
     Json (JObject
       [(''height'', JString ''0''),
        (''txhash'', JString ''3F59''),
        (''data'', JString data),
        (''raw_log'', JString ''[]'')])"

definition stub_client :: Client where
  "stub_client =
     \<lparr>options = \<lparr>Endpoint = ''http://localhost:1317'', ChainId = ''bluzelle'', UUID = ''u''\<rparr>,
      Address = ''bluzelle1'',
      account = \<lparr>AccountNumber = 7, Sequence = 3\<rparr>,
      broadcastRetries = 0\<rparr>"

definition stub_txn :: "GasInfo option \<Rightarrow> Transaction" where
  "stub_txn gasInfo =
     \<lparr>txn_Key = ''k'', txn_KeyValues = [], txn_Lease = 0, txn_N = 0, txn_NewKey = [],
      txn_Value = ''v'', ApiRequestMethod = ''POST'', ApiRequestEndpoint = ''/crud/create'',
      txn_GasInfo = gasInfo, txn_result = None, txn_err = None, txn_broadcastRetries = 0\<rparr>"

definition stub_payload :: TransactionBroadcastPayload where
  "stub_payload = \<lparr>Fee = Some \<lparr>fee_Amount = [], fee_Gas = ''50''\<rparr>, Memo = [], Msg = [], Signatures = []\<rparr>"

definition stub_gas :: GasInfo where
  "stub_gas = \<lparr>MaxGas = 30, MaxFee = 0, GasPrice = 5\<rparr>"

text \<open>
  Ledgers built on the stub. The first reports the conflict at every broadcast. The
  others report it at the first broadcast only (the exchange 1, after the validate
  exchange 0) and accept the retry; on the last two the clock gives the same reading every
  time, or readings 2147483647 nanoseconds apart with a generator that keeps of a seed
  only its remainder modulo \<open>2^31 - 1\<close>, as the generator of \<open>math/rand\<close> does.
\<close>

definition conflict_ledger :: env where
  "conflict_ledger = stub_ledger template_body (\<lambda>n. conflict_body)"

definition conflict_then_success :: "nat \<Rightarrow> body" where
  "conflict_then_success n = (if n < 2 then conflict_body else success_body [])"

definition retry_ledger :: env where
  "retry_ledger = stub_ledger template_body conflict_then_success"

definition stuck_clock_ledger :: env where
  "stuck_clock_ledger =
     (stub_ledger template_body conflict_then_success)\<lparr>clock := (\<lambda>n. 1600000000)\<rparr>"

definition reduced_seed_ledger :: env where
  "reduced_seed_ledger =
     (stub_ledger template_body conflict_then_success)
       \<lparr>clock := (\<lambda>n. 1600000000000000000 + int n * 2147483647),
        rng := (\<lambda>seed i. nat (seed mod 2147483647) + i)\<rparr>"




definition mistyped_validate_body :: body where
  "mistyped_validate_body = Json (JObject [(''type'', JInt 5)])"

definition payloadless_body :: body where
  "payloadless_body =
     Json (JObject [(''type'', JString ''cosmos-sdk/StdTx''), (''error'', JString []),
                    (''value'', JNull)])"

definition payloadless_ledger :: env where
  "payloadless_ledger = stub_ledger payloadless_body (\<lambda>n. conflict_body)"




definition mistyped_validate_ledger :: env where
  "mistyped_validate_ledger = stub_ledger mistyped_validate_body (\<lambda>n. conflict_body)"


subsection \<open>Predicates of the statements\<close>

text \<open>
  A payload whose fee block \<open>BroadcastTransaction\<close> can read: the fee is there, and its
  first amount, if it has one, is not \<open>nil\<close>.
\<close>

definition fee_ok :: "TransactionBroadcastPayload \<Rightarrow> bool" where
  "fee_ok txn =
     (case Fee txn of
        None \<Rightarrow> False
      | Some fee \<Rightarrow> (case fee_Amount fee of [] \<Rightarrow> True | a # as \<Rightarrow> a \<noteq> None))"

text \<open>
  A signer that signs every payload, with R and S of at most 32 bytes; a ledger that
  answers every broadcast request with a nonzero code and the conflict marker in the
  log; a ledger on which every account lookup succeeds.
\<close>

definition signs_all :: "env \<Rightarrow> bool" where
  "signs_all env =
     (\<forall>p. \<exists>sg. privateKey_Sign env p = Inr sg
        \<and> length (big_Bytes (sig_R sg)) \<le> 32 \<and> length (big_Bytes (sig_S sg)) \<le> 32)"

definition always_conflict :: "env \<Rightarrow> bool" where
  "always_conflict env =
     (\<forall>n rq. is_broadcast (HttpExchange rq) \<longrightarrow>
        (\<exists>resp body res.
            transport env n rq = Responded resp
          \<and> parseResponse resp = (Some body, None)
          \<and> Unmarshal dec_TransactionBroadcastResponse
               \<lparr>Height = [], TxHash = [], Data = [], Codespace = [], Code = 0, RawLog = [],
                GasWanted = []\<rparr> (Some body) = Inr res
          \<and> Code res \<noteq> 0
          \<and> Contains (RawLog res) ''signature verification failed''))"

definition finds_account :: "env \<Rightarrow> bool" where
  "finds_account env = (\<forall>n. \<exists>a. ledger_account env n = Inr a)"

section \<open>Properties\<close>

subsection \<open>Running the pipeline against the stub ledger\<close>

lemmas run_defs =
  SendTransaction_def ProcessTransaction_def ValidateTransaction_def APIMutate_def
  send_def makeRandomString_def random_string_def Intn_def chars_def set_fee_def SignTransaction_def
  serializeSig_def copy_into_def big_Bytes.simps b64_char_def encodeStd_def StdPadding_def
  parseResponse_def Unmarshal_def decode_struct_def dec_ErrorResponse_def
  dec_TransactionValidateResponse_def dec_TransactionBroadcastResponse_def
  type_ErrorResponse_def type_TransactionValidateResponse_def type_TransactionBroadcastResponse_def
  type_TransactionBroadcastPayload_def type_TransactionFee_def type_TransactionFeeAmount_def
  type_TransactionMsg_def type_TransactionMsgValue_def type_TransactionSignature_def
  type_TransactionSignaturePubKey_def type_KeyValue_def
  as_ErrorResponse_def as_TransactionValidateResponse_def as_TransactionBroadcastResponse_def
  as_TransactionBroadcastPayload_def as_TransactionFee_def as_TransactionFeeAmount_def
  as_TransactionMsg_def as_TransactionMsgValue_def as_TransactionSignature_def
  as_TransactionSignaturePubKey_def as_KeyValue_def
  field_of_def same_name_def lower_def saveError_def
  Atoi_def is_digit_def digit_val_def Itoa_def FormatInt_def FormatUint_def FormatNat.simps digit_char_def
  Contains_def hex_DecodeString_def fromHexChar_def
  setAccount_def count_def sle_def BROADCAST_MAX_RETRIES_def BROADCAST_RETRY_INTERVAL_def
  TX_COMMAND_def TOKEN_NAME_def PubKeyAminoName_def is_broadcast_def is_sleep_def memos_def
  stub_ledger_def stub_client_def stub_txn_def template_body_def conflict_body_def success_body_def
  stub_payload_def stub_gas_def
  Let_def

lemma upt_32:
  "[0..<32] = [0, 1, 2, 3, 4, 5, 6, 7, 8, 9, 10, 11, 12, 13, 14, 15, 16, 17, 18, 19, 20, 21, 22,
               23, 24, 25, 26, 27, 28, 29, 30, 31 :: nat]"
  by (simp add: upt_rec)

lemma stub_send_code_0:
  "\<exists>txn1 w1. send (stub_ledger template_body (\<lambda>n. success_body d)) stub_client []
       (Some stub_payload) (Some stub_gas)
     = Received \<lparr>Height = ''0'', TxHash = ''3F59'', Data = d, Codespace = [], Code = 0,
                 RawLog = ''[]'', GasWanted = []\<rparr> txn1 w1"
  by (simp add: run_defs)

lemma stub_two_submissions:
  "SendTransactions (stub_ledger template_body (\<lambda>n. success_body ''0a0b'')) stub_client []
      [stub_txn (Some stub_gas), stub_txn (Some stub_gas)] = (rs, ctx', w')
   \<Longrightarrow> rs = [Return (Some [10, 11], None), Return (Some [10, 11], None)] \<and> count is_lookup w' = 0"
  by (auto simp add: run_defs BroadcastTransaction.simps)

subsection \<open>Decoding the members of an object\<close>

lemma find_first_Some:
  "find_first P xs = Some i \<Longrightarrow> i < length xs \<and> P (xs ! i)"
proof (induction xs arbitrary: i)
  case Nil
  then show ?case by simp
next
  case (Cons x xs)
  then show ?case
    by (cases "P x") auto
qed

lemma find_first_None:
  "find_first P xs = None \<Longrightarrow> \<forall>x\<in>set xs. \<not> P x"
  by (induction xs) (auto split: if_splits)

lemma field_of_Some:
  assumes "field_of fs key = Some i"
  shows "i < length fs" and "same_name (fst (fs ! i)) key"
proof -
  from assms consider "find_first (\<lambda>f. fst f = key) fs = Some i"
    | "find_first (\<lambda>f. same_name (fst f) key) fs = Some i"
    by (auto simp: field_of_def split: option.splits)
  then have "i < length fs \<and> same_name (fst (fs ! i)) key"
  proof cases
    case 1
    from find_first_Some [OF 1] show ?thesis
      by (simp add: same_name_def)
  next
    case 2
    from find_first_Some [OF 2] show ?thesis
      by simp
  qed
  then show "i < length fs" and "same_name (fst (fs ! i)) key"
    by simp_all
qed

lemma field_of_None:
  assumes "field_of fs key = None"
  shows "\<forall>f\<in>set fs. \<not> same_name (fst f) key"
  using assms find_first_None [of "\<lambda>f. same_name (fst f) key" fs]
  by (auto simp: field_of_def split: option.splits)

lemma field_of_one:
  "field_of [(name, t)] key = (if same_name name key then Some 0 else None)"
  by (auto simp: field_of_def same_name_def)

text \<open>
  A struct with the one string field \<open>error\<close>: the members that bear the name are decoded
  in turn; one that is neither a string nor \<open>null\<close> is a type error, and the field is left
  with the last string.
\<close>

lemma decode_error_members:
  "decode_object [(''error'', TString)] ms [VString s]
   = ([VString (strings_into (members_of ''error'' ms) s)],
      if list_all string_or_null (members_of ''error'' ms) then None else Some JsonTypeError)"
proof (induction ms arbitrary: s)
  case Nil
  show ?case
    by (simp add: members_of_def)
next
  case (Cons m ms)
  show ?case
  proof (cases "same_name ''error'' (fst m)")
    case False
    then show ?thesis
      using Cons.IH [of s] by (simp add: field_of_one members_of_def)
  next
    case True
    show ?thesis
    proof (cases "snd m")
      case (JString x)
      with True show ?thesis
        using Cons.IH [of x] by (simp add: field_of_one members_of_def saveError_def)
    next
      case JNull
      with True show ?thesis
        using Cons.IH [of s] by (simp add: field_of_one members_of_def saveError_def)
    qed (use True Cons.IH [of s] in \<open>simp_all add: field_of_one members_of_def saveError_def\<close>)
  qed
qed

lemma dec_ErrorResponse_members:
  "dec_ErrorResponse ms
   = (if list_all string_or_null (members_of ''error'' ms)
      then Inr \<lparr>er_Error = strings_into (members_of ''error'' ms) []\<rparr>
      else Inl JsonTypeError)"
  by (simp add: dec_ErrorResponse_def decode_struct_def type_ErrorResponse_def
      decode_error_members as_ErrorResponse_def)

lemma parseResponse_object:
  assumes "Body res = ReadAll (Json (JObject ms))"
  shows "parseResponse res
   = (if \<not> list_all string_or_null (members_of ''error'' ms) then (None, Some JsonTypeError)
      else if strings_into (members_of ''error'' ms) [] \<noteq> []
      then (None, Some (Errorf (strings_into (members_of ''error'' ms) [])))
      else (Some (Json (JObject ms)), None))"
  using assms by (simp add: parseResponse_def Unmarshal_def dec_ErrorResponse_members)

text \<open>
  The validate response: a string field \<open>type\<close> and a pointer field \<open>value\<close>. When every
  member named \<open>value\<close> is \<open>null\<close> the pointer stays \<open>nil\<close>, and the object decodes without
  error exactly when every member named \<open>type\<close> is a string or \<open>null\<close>.
\<close>

lemma type_value_names:
  "same_name ''type'' k \<Longrightarrow> \<not> same_name ''value'' k"
proof -
  have "foldName ''type'' \<noteq> foldName ''value''"
    by (simp add: lower_def)
  then show "same_name ''type'' k \<Longrightarrow> \<not> same_name ''value'' k"
    unfolding same_name_def by metis
qed

lemma decode_validate_members:
  assumes "list_all is_null (members_of ''value'' ms)"
  shows "decode_object [(''type'', TString), (''value'', TPtr t)] ms [VString s, VPtr None]
         = ([VString (strings_into (members_of ''type'' ms) s), VPtr None],
            if list_all string_or_null (members_of ''type'' ms) then None else Some JsonTypeError)"
  using assms
proof (induction ms arbitrary: s)
  case Nil
  show ?case
    by (simp add: members_of_def)
next
  case (Cons m ms)
  let ?fs = "[(''type'', TString), (''value'', TPtr t)]"
  show ?case
  proof (cases "field_of ?fs (fst m)")
    case None
    from field_of_None [OF None] have "\<not> same_name ''type'' (fst m)" "\<not> same_name ''value'' (fst m)"
      by simp_all
    with None Cons show ?thesis
      by (simp add: members_of_def)
  next
    case (Some i)
    from field_of_Some [OF Some] have i: "i < 2" "same_name (fst (?fs ! i)) (fst m)"
      by simp_all
    then consider "i = 0" "same_name ''type'' (fst m)" | "i = 1" "same_name ''value'' (fst m)"
      by (cases i) (auto simp: less_Suc_eq)
    then show ?thesis
    proof cases
      case 1
      with Cons.prems have p: "list_all is_null (members_of ''value'' ms)"
        by (simp add: members_of_def type_value_names)
      show ?thesis
      proof (cases "snd m")
        case (JString x)
        with 1 Some show ?thesis
          using Cons.IH [OF p, of x] by (simp add: members_of_def saveError_def)
      qed (use 1 Some Cons.IH [OF p, of s] in \<open>simp_all add: members_of_def saveError_def\<close>)
    next
      case 2
      then have n: "\<not> same_name ''type'' (fst m)"
        using type_value_names by blast
      with 2 Cons.prems have p: "snd m = JNull" "list_all is_null (members_of ''value'' ms)"
        by (simp_all add: members_of_def) (cases "snd m"; simp)
      with 2 n Some show ?thesis
        using Cons.IH [OF p(2), of s] by (simp add: members_of_def saveError_def)
    qed
  qed
qed

lemma dec_TransactionValidateResponse_no_value:
  assumes "list_all is_null (members_of ''value'' ms)"
  shows "dec_TransactionValidateResponse ms
         = (if list_all string_or_null (members_of ''type'' ms)
            then Inr \<lparr>vs_Type = strings_into (members_of ''type'' ms) [], vs_Value = None\<rparr>
            else Inl JsonTypeError)"
  using decode_validate_members [OF assms, of type_TransactionBroadcastPayload "[]"]
  by (simp add: dec_TransactionValidateResponse_def decode_struct_def
      type_TransactionValidateResponse_def as_TransactionValidateResponse_def)

subsection \<open>Decimal strings; what a pass sends\<close>

lemma digit_char_props:
  assumes "d < 10"
  shows "is_digit (digit_char d)" and "digit_val (digit_char d) = d"
    and "digit_char d \<noteq> CHR ''+''" and "digit_char d \<noteq> CHR ''-''"
proof -
  have d: "d = 0 \<or> d = 1 \<or> d = 2 \<or> d = 3 \<or> d = 4 \<or> d = 5 \<or> d = 6 \<or> d = 7 \<or> d = 8 \<or> d = 9"
    using assms by arith
  show "is_digit (digit_char d)" "digit_val (digit_char d) = d"
    "digit_char d \<noteq> CHR ''+''" "digit_char d \<noteq> CHR ''-''"
    using d by (auto simp: digit_char_def is_digit_def digit_val_def)
qed

lemma digits_val_ge: "acc \<le> digits_val ds acc"
proof (induction ds arbitrary: acc)
  case Nil
  then show ?case by (simp add: digits_val_def)
next
  case (Cons c ds)
  have "acc \<le> acc * 10 + digit_val c"
    by simp
  also have "\<dots> \<le> digits_val ds (acc * 10 + digit_val c)"
    by (rule Cons.IH)
  finally show ?case
    by (simp add: digits_val_def)
qed

lemma ParseUint_digits:
  "list_all is_digit ds \<Longrightarrow> digits_val ds acc < 2 ^ 64 \<Longrightarrow> ParseUint ds acc = (digits_val ds acc, None)"
proof (induction ds arbitrary: acc)
  case Nil
  then show ?case by (simp add: digits_val_def)
next
  case (Cons c ds)
  let ?n1 = "acc * 10 + digit_val c"
  have v: "digits_val (c # ds) acc = digits_val ds ?n1"
    by (simp add: digits_val_def)
  have "?n1 \<le> digits_val ds ?n1"
    by (rule digits_val_ge)
  with Cons.prems v have small: "\<not> ?n1 > 2 ^ 64 - 1"
    by simp
  have "ParseUint ds ?n1 = (digits_val ds ?n1, None)"
    using Cons.prems v by (intro Cons.IH) simp_all
  with Cons.prems small v show ?case
    by (simp add: Let_def)
qed

lemma FormatNat_digits:
  "list_all is_digit (FormatNat n) \<and> digits_val (FormatNat n) 0 = n \<and> FormatNat n \<noteq> []
   \<and> hd (FormatNat n) \<noteq> CHR ''+'' \<and> hd (FormatNat n) \<noteq> CHR ''-''"
proof (induction n rule: FormatNat.induct)
  case (1 n)
  show ?case
  proof (cases "n < 10")
    case True
    then show ?thesis
      by (simp add: FormatNat.simps [of n] digit_char_props digits_val_def)
  next
    case False
    have m: "n mod 10 < 10"
      by simp
    from False 1 have ih: "list_all is_digit (FormatNat (n div 10))"
      "digits_val (FormatNat (n div 10)) 0 = n div 10" "FormatNat (n div 10) \<noteq> []"
      "hd (FormatNat (n div 10)) \<noteq> CHR ''+''" "hd (FormatNat (n div 10)) \<noteq> CHR ''-''"
      by simp_all
    have "digits_val (FormatNat (n div 10) @ [digit_char (n mod 10)]) 0 = n div 10 * 10 + n mod 10"
      using ih(2) by (simp add: digits_val_def digit_char_props [OF m])
    then show ?thesis
      using False ih by (simp add: FormatNat.simps [of n] digit_char_props [OF m])
  qed
qed

lemma ParseUint_FormatNat:
  assumes "n < 2 ^ 64"
  shows "ParseUint (FormatNat n) 0 = (n, None)"
  using ParseUint_digits [of "FormatNat n" 0] FormatNat_digits [of n] assms by simp

lemma Atoi_Itoa: "Atoi (Itoa i) = (i, None)"
proof (cases "sint i < 0")
  case False
  define n where "n = nat (sint i)"
  have b: "sint i < 2 ^ 63"
    using sint_lt [of i] by simp
  then have n: "n < 2 ^ 63" "n < 2 ^ 64"
    using False by (simp_all add: n_def)
  have w: "(of_nat n :: go_int) = i"
    using False by (simp add: n_def)
  have "Itoa i = FormatNat n"
    using False by (simp add: Itoa_def FormatInt_def n_def)
  then show ?thesis
    using FormatNat_digits [of n] ParseUint_FormatNat [OF n(2)] n(1) w
    by (simp add: Atoi_def Let_def)
next
  case True
  define n where "n = nat (- sint i)"
  have b: "- (2 ^ 63) \<le> sint i"
    using sint_ge [of i] by simp
  then have n: "n \<le> 2 ^ 63" "n < 2 ^ 64"
    using True by (simp_all add: n_def)
  have w: "- (of_nat n :: go_int) = i"
    using True by (simp add: n_def)
  have "Itoa i = CHR ''-'' # FormatNat n"
    using True by (simp add: Itoa_def FormatInt_def n_def)
  then show ?thesis
    using FormatNat_digits [of n] ParseUint_FormatNat [OF n(2)] n(1) w
    by (simp add: Atoi_def Let_def)
qed

text \<open>What a pass shows when it reaches the response of the ledger.\<close>

lemma send_Received:
  assumes "send env ctx w otxn ogas = Received res txn' w'"
  shows "\<exists>txn g txn1 signature resp body.
           otxn = Some txn \<and> ogas = Some g
         \<and> set_fee (txn\<lparr>Memo := random_string env (clock env (count is_clock w)) 32\<rparr>) g = Return txn1
         \<and> SignTransaction env ctx txn1 = Return (signature, None)
         \<and> txn' = txn1\<lparr>Signatures :=
              [Some \<lparr>ts_AccountNumber = Itoa (AccountNumber (account ctx)),
                     ts_PubKey = Some \<lparr>pk_Type = PubKeyAminoName, pk_Value = privateKey_PubKey env\<rparr>,
                     ts_Sequence = Itoa (Sequence (account ctx)),
                     ts_Signature = signature\<rparr>]\<rparr>
         \<and> w' = w @ [ClockRead, HttpExchange
              \<lparr>rq_Method = ''POST'', rq_URL = Endpoint (options ctx) @ TX_COMMAND,
               rq_Body = Marshal_TransactionBroadcastRequest
                 \<lparr>bq_Transaction = Some txn', bq_Mode = ''block''\<rparr>\<rparr>]
         \<and> transport env (count is_http w)
              \<lparr>rq_Method = ''POST'', rq_URL = Endpoint (options ctx) @ TX_COMMAND,
               rq_Body = Marshal_TransactionBroadcastRequest
                 \<lparr>bq_Transaction = Some txn', bq_Mode = ''block''\<rparr>\<rparr> = Responded resp
         \<and> parseResponse resp = (Some body, None)
         \<and> Unmarshal dec_TransactionBroadcastResponse
              \<lparr>Height = [], TxHash = [], Data = [], Codespace = [], Code = 0, RawLog = [],
               GasWanted = []\<rparr> (Some body) = Inr res"
  using assms
  by (auto simp: send_def makeRandomString_def APIMutate_def Let_def count_def parseResponse_def
      split: option.splits go.splits prod.splits sum.splits if_splits exchange.splits reader.splits)

lemma set_fee_Memo:
  "set_fee (txn\<lparr>Memo := m\<rparr>) g = (case set_fee txn g of Panic p \<Rightarrow> Panic p | Return t \<Rightarrow> Return (t\<lparr>Memo := m\<rparr>))"
  by (simp add: set_fee_def Let_def split: option.splits go.splits prod.splits)

subsection \<open>The reading of the broadcast response\<close>

lemma count_append: "count P (xs @ ys) = count P xs + count P ys"
  by (simp add: count_def)

lemma send_Ended:
  assumes "send env ctx w otxn ogas = Ended r w'"
  shows "((\<exists>p. r = Panic p) \<or> (\<exists>err. r = Return (None, Some err)))
       \<and> (\<exists>es. w' = w @ es \<and> count is_lookup es = 0)"
  using assms
  by (auto simp: send_def makeRandomString_def APIMutate_def Let_def count_def
      split: option.splits go.splits prod.splits sum.splits if_splits exchange.splits)

lemma send_Received_trace:
  assumes "send env ctx w otxn ogas = Received res txn' w'"
  shows "w' = w @ [ClockRead, HttpExchange
              \<lparr>rq_Method = ''POST'', rq_URL = Endpoint (options ctx) @ TX_COMMAND,
               rq_Body = Marshal_TransactionBroadcastRequest
                 \<lparr>bq_Transaction = Some txn', bq_Mode = ''block''\<rparr>\<rparr>]"
  using assms
  by (auto simp: send_def makeRandomString_def APIMutate_def Let_def count_def
      split: option.splits go.splits prod.splits sum.splits if_splits exchange.splits)

lemma setAccount_result:
  assumes "setAccount env ctx w = (err, ctx', w')"
  shows "w' = w @ [AccountLookup]" and "broadcastRetries ctx' = broadcastRetries ctx"
    and "err \<noteq> None \<longrightarrow> ctx' = ctx"
  using assms by (auto simp: setAccount_def split: sum.splits)

text \<open>The five ways a call of \<open>BroadcastTransaction\<close> goes on once the pass is over.\<close>

lemma BroadcastTransaction_Ended:
  assumes "send env ctx w otxn ogas = Ended r w1"
  shows "BroadcastTransaction env ctx w otxn ogas = (r, ctx, w1)"
  using assms by (subst BroadcastTransaction.simps) simp

lemma BroadcastTransaction_code_0:
  assumes "send env ctx w otxn ogas = Received res txn1 w1" and "Code res = 0"
  shows "BroadcastTransaction env ctx w otxn ogas =
         (Return (if Data res = [] then (Some [], None) else hex_DecodeString (Data res)),
          ctx\<lparr>account := (account ctx)\<lparr>Sequence := Sequence (account ctx) + 1\<rparr>\<rparr>, w1)"
  using assms by (subst BroadcastTransaction.simps) (simp add: Let_def)

lemma BroadcastTransaction_fatal:
  assumes "send env ctx w otxn ogas = Received res txn1 w1" and "Code res \<noteq> 0"
    and "\<not> Contains (RawLog res) ''signature verification failed''"
  shows "BroadcastTransaction env ctx w otxn ogas = (Return (None, Some (Errorf (RawLog res))), ctx, w1)"
  using assms by (subst BroadcastTransaction.simps) (simp add: Let_def)

lemma BroadcastTransaction_exhausted:
  assumes "send env ctx w otxn ogas = Received res txn1 w1" and "Code res \<noteq> 0"
    and "Contains (RawLog res) ''signature verification failed''"
    and "sle BROADCAST_MAX_RETRIES (broadcastRetries ctx + 1)"
  shows "BroadcastTransaction env ctx w otxn ogas =
         (Return (None, Some (Errorf ''txn failed after max retry attempts'')),
          ctx\<lparr>broadcastRetries := broadcastRetries ctx + 1\<rparr>, w1)"
  using assms by (subst BroadcastTransaction.simps) (simp add: Let_def)

lemma BroadcastTransaction_retry:
  assumes "send env ctx w otxn ogas = Received res txn1 w1" and "Code res \<noteq> 0"
    and "Contains (RawLog res) ''signature verification failed''"
    and "\<not> sle BROADCAST_MAX_RETRIES (broadcastRetries ctx + 1)"
    and "setAccount env (ctx\<lparr>broadcastRetries := broadcastRetries ctx + 1\<rparr>)
           (w1 @ [Sleep BROADCAST_RETRY_INTERVAL]) = (err, ctx2, w2)"
  shows "BroadcastTransaction env ctx w otxn ogas =
         (case err of
            Some e \<Rightarrow> (Return (None, Some e), ctx2, w2)
          | None \<Rightarrow> BroadcastTransaction env ctx2 w2 (Some txn1) ogas)"
  using assms by (subst BroadcastTransaction.simps) (simp add: Let_def split: option.splits)

text \<open>Induction along the retries.\<close>

lemma BroadcastTransaction_retry_induct [case_names call]:
  assumes "\<And>env ctx w otxn ogas.
      (\<And>res txn1 w1 ctx2 w2.
          send env ctx w otxn ogas = Received res txn1 w1 \<Longrightarrow>
          Code res \<noteq> 0 \<Longrightarrow>
          Contains (RawLog res) ''signature verification failed'' \<Longrightarrow>
          \<not> sle BROADCAST_MAX_RETRIES (broadcastRetries ctx + 1) \<Longrightarrow>
          setAccount env (ctx\<lparr>broadcastRetries := broadcastRetries ctx + 1\<rparr>)
            (w1 @ [Sleep BROADCAST_RETRY_INTERVAL]) = (None, ctx2, w2) \<Longrightarrow>
          P env ctx2 w2 (Some txn1) ogas) \<Longrightarrow>
      P env ctx w otxn ogas"
  shows "P env ctx w otxn ogas"
proof (induction env ctx w otxn ogas rule: BroadcastTransaction.induct)
  case (1 env ctx w txn gasInfo)
  show ?case
  proof (rule assms)
    fix res txn1 w1 ctx2 w2
    assume a: "send env ctx w txn gasInfo = Received res txn1 w1"
      "Code res \<noteq> 0"
      "Contains (RawLog res) ''signature verification failed''"
      "\<not> sle BROADCAST_MAX_RETRIES (broadcastRetries ctx + 1)"
      "setAccount env (ctx\<lparr>broadcastRetries := broadcastRetries ctx + 1\<rparr>)
            (w1 @ [Sleep BROADCAST_RETRY_INTERVAL]) = (None, ctx2, w2)"
    show "P env ctx2 w2 (Some txn1) gasInfo"
      apply (rule "1.IH")
              apply (rule a(1))
             apply (rule a(2))
            apply (rule a(3))
           apply (rule refl)
          apply (simp add: a(4))
         apply (rule refl)
        apply (rule a(5) [symmetric])
       apply (rule refl)
      apply (rule refl)
      done
  qed
qed

text \<open>
  What a call does, by cases: the pass ends it; the code is 0; the error is not the
  marked one; the retries are used up; the account lookup fails; or the call goes on as
  the call it makes.
\<close>

lemma BroadcastTransaction_cases [consumes 1, case_names Ended Success Fatal Exhausted Lookup Retry]:
  assumes "BroadcastTransaction env ctx w otxn ogas = (r, ctx', w')"
    and "\<And>w1. send env ctx w otxn ogas = Ended r w1 \<Longrightarrow> ctx' = ctx \<Longrightarrow> w' = w1 \<Longrightarrow> Q"
    and "\<And>res txn1. send env ctx w otxn ogas = Received res txn1 w' \<Longrightarrow> Code res = 0 \<Longrightarrow>
           r = Return (if Data res = [] then (Some [], None) else hex_DecodeString (Data res)) \<Longrightarrow>
           ctx' = ctx\<lparr>account := (account ctx)\<lparr>Sequence := Sequence (account ctx) + 1\<rparr>\<rparr> \<Longrightarrow> Q"
    and "\<And>res txn1. send env ctx w otxn ogas = Received res txn1 w' \<Longrightarrow> Code res \<noteq> 0 \<Longrightarrow>
           \<not> Contains (RawLog res) ''signature verification failed'' \<Longrightarrow>
           r = Return (None, Some (Errorf (RawLog res))) \<Longrightarrow> ctx' = ctx \<Longrightarrow> Q"
    and "\<And>res txn1. send env ctx w otxn ogas = Received res txn1 w' \<Longrightarrow> Code res \<noteq> 0 \<Longrightarrow>
           Contains (RawLog res) ''signature verification failed'' \<Longrightarrow>
           sle BROADCAST_MAX_RETRIES (broadcastRetries ctx + 1) \<Longrightarrow>
           r = Return (None, Some (Errorf ''txn failed after max retry attempts'')) \<Longrightarrow>
           ctx' = ctx\<lparr>broadcastRetries := broadcastRetries ctx + 1\<rparr> \<Longrightarrow> Q"
    and "\<And>res txn1 w1 e. send env ctx w otxn ogas = Received res txn1 w1 \<Longrightarrow> Code res \<noteq> 0 \<Longrightarrow>
           Contains (RawLog res) ''signature verification failed'' \<Longrightarrow>
           \<not> sle BROADCAST_MAX_RETRIES (broadcastRetries ctx + 1) \<Longrightarrow>
           setAccount env (ctx\<lparr>broadcastRetries := broadcastRetries ctx + 1\<rparr>)
             (w1 @ [Sleep BROADCAST_RETRY_INTERVAL]) = (Some e, ctx', w') \<Longrightarrow>
           r = Return (None, Some e) \<Longrightarrow> Q"
    and "\<And>res txn1 w1 ctx2 w2. send env ctx w otxn ogas = Received res txn1 w1 \<Longrightarrow> Code res \<noteq> 0 \<Longrightarrow>
           Contains (RawLog res) ''signature verification failed'' \<Longrightarrow>
           \<not> sle BROADCAST_MAX_RETRIES (broadcastRetries ctx + 1) \<Longrightarrow>
           setAccount env (ctx\<lparr>broadcastRetries := broadcastRetries ctx + 1\<rparr>)
             (w1 @ [Sleep BROADCAST_RETRY_INTERVAL]) = (None, ctx2, w2) \<Longrightarrow>
           BroadcastTransaction env ctx2 w2 (Some txn1) ogas = (r, ctx', w') \<Longrightarrow> Q"
  shows Q
proof (cases "send env ctx w otxn ogas")
  case (Ended r0 w0)
  with assms(1) BroadcastTransaction_Ended [OF Ended] show ?thesis
    by (intro assms(2) [of w0]) simp_all
next
  case (Received res txn1 w1)
  consider (ok) "Code res = 0"
    | (fatal) "Code res \<noteq> 0" "\<not> Contains (RawLog res) ''signature verification failed''"
    | (exhausted) "Code res \<noteq> 0" "Contains (RawLog res) ''signature verification failed''"
        "sle BROADCAST_MAX_RETRIES (broadcastRetries ctx + 1)"
    | (retry) "Code res \<noteq> 0" "Contains (RawLog res) ''signature verification failed''"
        "\<not> sle BROADCAST_MAX_RETRIES (broadcastRetries ctx + 1)"
    by blast
  then show ?thesis
  proof cases
    case ok
    with assms(1) BroadcastTransaction_code_0 [OF Received ok] Received show ?thesis
      by (intro assms(3) [of res txn1]) simp_all
  next
    case fatal
    with assms(1) BroadcastTransaction_fatal [OF Received fatal] Received show ?thesis
      by (intro assms(4) [of res txn1]) simp_all
  next
    case exhausted
    with assms(1) BroadcastTransaction_exhausted [OF Received exhausted] Received show ?thesis
      by (intro assms(5) [of res txn1]) simp_all
  next
    case retry
    obtain err ctx2 w2 where
      sa: "setAccount env (ctx\<lparr>broadcastRetries := broadcastRetries ctx + 1\<rparr>)
             (w1 @ [Sleep BROADCAST_RETRY_INTERVAL]) = (err, ctx2, w2)"
      by (cases "setAccount env (ctx\<lparr>broadcastRetries := broadcastRetries ctx + 1\<rparr>)
             (w1 @ [Sleep BROADCAST_RETRY_INTERVAL])") auto
    note eq = BroadcastTransaction_retry [OF Received retry sa]
    show ?thesis
    proof (cases err)
      case None
      with eq assms(1) sa Received retry show ?thesis
        by (intro assms(7) [of res txn1 w1 ctx2 w2]) simp_all
    next
      case (Some e)
      with eq assms(1) sa Received retry show ?thesis
        by (intro assms(6) [of res txn1 w1 e]) simp_all
    qed
  qed
qed

text \<open>A call only adds events to the trace.\<close>

lemma BroadcastTransaction_trace:
  "BroadcastTransaction env ctx w otxn ogas = (r, ctx', w') \<Longrightarrow> \<exists>es. w' = w @ es"
proof (induction env ctx w otxn ogas rule: BroadcastTransaction_retry_induct)
  case (call env ctx w otxn ogas)
  from call.prems show ?case
  proof (cases rule: BroadcastTransaction_cases)
    case (Ended w1)
    with send_Ended [OF Ended(1)] show ?thesis by auto
  next
    case (Success res txn1)
    with send_Received_trace [OF Success(1)] show ?thesis by auto
  next
    case (Fatal res txn1)
    with send_Received_trace [OF Fatal(1)] show ?thesis by auto
  next
    case (Exhausted res txn1)
    with send_Received_trace [OF Exhausted(1)] show ?thesis by auto
  next
    case (Lookup res txn1 w1 e)
    with send_Received_trace [OF Lookup(1)] setAccount_result(1) [OF Lookup(5)] show ?thesis by auto
  next
    case (Retry res txn1 w1 ctx2 w2)
    from call.IH [OF Retry(1-6)] obtain es where "w' = w2 @ es" by auto
    with send_Received_trace [OF Retry(1)] setAccount_result(1) [OF Retry(5)] show ?thesis by auto
  qed
qed

lemma count_le_append: "w' = w @ es \<Longrightarrow> count P w \<le> count P w'"
  by (simp add: count_append)

text \<open>A call that returns without an error and without an account lookup has added one to the sequence.\<close>

lemma BroadcastTransaction_in_step:
  assumes "BroadcastTransaction env ctx w otxn ogas = (Return (b, None), ctx', w')"
    and "count is_lookup w' = count is_lookup w"
  shows "ctx' = ctx\<lparr>account := (account ctx)\<lparr>Sequence := Sequence (account ctx) + 1\<rparr>\<rparr>"
  using assms(1)
proof (cases rule: BroadcastTransaction_cases)
  case (Ended w1)
  with send_Ended [OF Ended(1)] show ?thesis by auto
next
  case (Success res txn1)
  then show ?thesis by simp
next
  case (Fatal res txn1)
  then show ?thesis by simp
next
  case (Exhausted res txn1)
  then show ?thesis by simp
next
  case (Lookup res txn1 w1 e)
  then show ?thesis by simp
next
  case (Retry res txn1 w1 ctx2 w2)
  from BroadcastTransaction_trace [OF Retry(6)] obtain es where "w' = w2 @ es" by auto
  with send_Received_trace [OF Retry(1)] setAccount_result(1) [OF Retry(5)] assms(2)
  show ?thesis
    by (simp add: count_append count_def)
qed

lemma ValidateTransaction_trace:
  assumes "ValidateTransaction env ctx w txn = (r, w')"
  shows "\<exists>es. w' = w @ es \<and> count is_lookup es = 0 \<and> count is_broadcast es = 0
              \<and> count is_http es = (if request_ok env (ApiRequestMethod txn)
                     (Endpoint (options ctx) @ ApiRequestEndpoint txn) then 1 else 0)"
  using assms
  by (auto simp: ValidateTransaction_def APIMutate_def Let_def count_def is_broadcast_def
      split: prod.splits go.splits option.splits sum.splits exchange.splits if_splits)

lemma SendTransaction_trace:
  assumes "SendTransaction env ctx w txn = (r, ctx', w')"
  shows "\<exists>es. w' = w @ es"
proof -
  obtain v w1 where v: "ValidateTransaction env ctx w (txn\<lparr>txn_broadcastRetries := 0\<rparr>) = (v, w1)"
    by (cases "ValidateTransaction env ctx w (txn\<lparr>txn_broadcastRetries := 0\<rparr>)") auto
  from ValidateTransaction_trace [OF v] obtain es1 where es1: "w1 = w @ es1"
    by auto
  show ?thesis
  proof (cases v)
    case (Panic p)
    with assms v es1 show ?thesis
      by (auto simp: SendTransaction_def ProcessTransaction_def Let_def)
  next
    case (Return pe)
    obtain payload err where pe: "pe = (payload, err)"
      by (cases pe) auto
    show ?thesis
    proof (cases err)
      case (Some e)
      with assms v es1 Return pe show ?thesis
        by (auto simp: SendTransaction_def ProcessTransaction_def Let_def)
    next
      case None
      obtain r2 ctx2 w2 where
        b: "BroadcastTransaction env ctx w1 payload (txn_GasInfo txn) = (r2, ctx2, w2)"
        by (cases "BroadcastTransaction env ctx w1 payload (txn_GasInfo txn)") auto
      from BroadcastTransaction_trace [OF b] obtain es2 where "w2 = w1 @ es2"
        by auto
      with assms v es1 Return pe None b show ?thesis
        by (auto simp: SendTransaction_def ProcessTransaction_def Let_def split: go.splits)
    qed
  qed
qed

lemma SendTransaction_in_step:
  assumes "SendTransaction env ctx w txn = (Return (b, None), ctx', w')"
    and "count is_lookup w' = count is_lookup w"
  shows "ctx' = ctx\<lparr>account := (account ctx)\<lparr>Sequence := Sequence (account ctx) + 1\<rparr>\<rparr>"
proof -
  obtain v w1 where v: "ValidateTransaction env ctx w (txn\<lparr>txn_broadcastRetries := 0\<rparr>) = (v, w1)"
    by (cases "ValidateTransaction env ctx w (txn\<lparr>txn_broadcastRetries := 0\<rparr>)") auto
  from ValidateTransaction_trace [OF v] obtain es1 where
    es1: "w1 = w @ es1" "count is_lookup es1 = 0"
    by auto
  show ?thesis
  proof (cases v)
    case (Panic p)
    with assms v show ?thesis
      by (auto simp: SendTransaction_def ProcessTransaction_def Let_def)
  next
    case (Return pe)
    obtain payload err where pe: "pe = (payload, err)"
      by (cases pe) auto
    show ?thesis
    proof (cases err)
      case (Some e)
      with assms v Return pe show ?thesis
        by (auto simp: SendTransaction_def ProcessTransaction_def Let_def)
    next
      case None
      obtain r2 ctx2 w2 where
        bt: "BroadcastTransaction env ctx w1 payload (txn_GasInfo txn) = (r2, ctx2, w2)"
        by (cases "BroadcastTransaction env ctx w1 payload (txn_GasInfo txn)") auto
      with assms(1) v Return pe None have r: "r2 = Return (b, None)" "ctx2 = ctx'" "w2 = w'"
        by (auto simp: SendTransaction_def ProcessTransaction_def Let_def split: go.splits)
      have "count is_lookup w' = count is_lookup w1"
        using assms(2) es1 by (simp add: count_append)
      with bt r show ?thesis
        by (intro BroadcastTransaction_in_step [of env ctx w1 payload "txn_GasInfo txn" b ctx' w']) simp_all
    qed
  qed
qed

lemma SendTransactions_trace:
  "SendTransactions env ctx w txns = (rs, ctx', w') \<Longrightarrow> \<exists>es. w' = w @ es"
proof (induction txns arbitrary: ctx w rs ctx' w')
  case Nil
  then show ?case by simp
next
  case (Cons txn txns)
  obtain r1 c1 w1 where s: "SendTransaction env ctx w txn = (r1, c1, w1)"
    by (cases "SendTransaction env ctx w txn") auto
  from SendTransaction_trace [OF s] obtain es1 where es1: "w1 = w @ es1"
    by auto
  show ?case
  proof (cases r1)
    case (Panic p)
    with Cons.prems s es1 show ?thesis by auto
  next
    case (Return x)
    obtain rs2 c2 w2 where t: "SendTransactions env c1 w1 txns = (rs2, c2, w2)"
      by (cases "SendTransactions env c1 w1 txns") auto
    from Cons.IH [OF t] obtain es2 where "w2 = w1 @ es2"
      by auto
    with Cons.prems s es1 Return t show ?thesis by auto
  qed
qed

lemma SendTransactions_in_step:
  assumes "SendTransactions env ctx w txns = (rs, ctx', w')"
    and "\<forall>r\<in>set rs. \<exists>b. r = Return (b, None)"
    and "count is_lookup w' = count is_lookup w"
  shows "length rs = length txns
       \<and> ctx' = ctx\<lparr>account := (account ctx)\<lparr>Sequence := Sequence (account ctx) + of_nat (length txns)\<rparr>\<rparr>"
  using assms
proof (induction txns arbitrary: ctx w rs ctx' w')
  case Nil
  then show ?case by simp
next
  case (Cons txn txns)
  obtain r1 c1 w1 where s: "SendTransaction env ctx w txn = (r1, c1, w1)"
    by (cases "SendTransaction env ctx w txn") auto
  from SendTransaction_trace [OF s] have m1: "count is_lookup w \<le> count is_lookup w1"
    by (auto simp: count_append)
  show ?case
  proof (cases r1)
    case (Panic p)
    with Cons.prems s show ?thesis by auto
  next
    case (Return x)
    obtain rs2 c2 w2 where t: "SendTransactions env c1 w1 txns = (rs2, c2, w2)"
      by (cases "SendTransactions env c1 w1 txns") auto
    with Cons.prems(1) s Return have r: "rs = Return x # rs2" "ctx' = c2" "w' = w2"
      by simp_all
    from SendTransactions_trace [OF t] have m2: "count is_lookup w1 \<le> count is_lookup w2"
      by (auto simp: count_append)
    from r Cons.prems(2) obtain b where x: "x = (b, None)"
      by auto
    from m1 m2 r Cons.prems(3) have e: "count is_lookup w1 = count is_lookup w"
      "count is_lookup w2 = count is_lookup w1"
      by simp_all
    have c1: "c1 = ctx\<lparr>account := (account ctx)\<lparr>Sequence := Sequence (account ctx) + 1\<rparr>\<rparr>"
      using s Return x e(1) by (intro SendTransaction_in_step [of env ctx w txn b c1 w1]) simp_all
    have h2: "\<forall>r\<in>set rs2. \<exists>b. r = Return (b, None)"
      using r Cons.prems(2) by simp
    have "length rs2 = length txns
       \<and> c2 = c1\<lparr>account := (account c1)\<lparr>Sequence := Sequence (account c1) + of_nat (length txns)\<rparr>\<rparr>"
      by (rule Cons.IH [OF t h2 e(2)])
    with r c1 show ?thesis
      by (simp add: add.assoc add.commute)
  qed
qed

lemma hex_Decode_error:
  "snd (hex_Decode s) = None \<longleftrightarrow> even (length s) \<and> (\<forall>c\<in>set s. fromHexChar c \<noteq> None)"
  by (induction s rule: hex_Decode.induct) (auto split: option.splits prod.splits)

text \<open>
  C4. When the response of a pass has the code 0, \<open>BroadcastTransaction\<close> adds one to the
  sequence of the account and returns the empty result for an empty \<open>data\<close>, and what
  \<open>hex.DecodeString\<close> makes of \<open>data\<close> otherwise (no error when \<open>data\<close> is hexadecimal).
  Hence after any number of submissions in a row that all returned without an error,
  with the account in step with the ledger all along (no account lookup was made), the
  sequence has grown by the number of submissions (in \<open>int\<close>).
\<close>

theorem success_adds_one_to_sequence:
  "(send env ctx w otxn ogas = Received res txn1 w1 \<and> Code res = 0 \<longrightarrow>
      BroadcastTransaction env ctx w otxn ogas =
        (Return (if Data res = [] then (Some [], None) else hex_DecodeString (Data res)),
         ctx\<lparr>account := (account ctx)\<lparr>Sequence := Sequence (account ctx) + 1\<rparr>\<rparr>, w1)
      \<and> (even (length (Data res)) \<and> (\<forall>c\<in>set (Data res). fromHexChar c \<noteq> None) \<longrightarrow>
            snd (hex_DecodeString (Data res)) = None))
   \<and> (SendTransactions env ctx w txns = (rs, ctx', w')
        \<and> (\<forall>r\<in>set rs. \<exists>b. r = Return (b, None))
        \<and> count is_lookup w' = count is_lookup w \<longrightarrow>
      length rs = length txns
      \<and> Sequence (account ctx') = Sequence (account ctx) + of_nat (length txns))"
proof -
  have h: "snd (hex_DecodeString d) = snd (hex_Decode d)" for d
    by (simp add: hex_DecodeString_def split: prod.splits)
  have a: "send env ctx w otxn ogas = Received res txn1 w1 \<and> Code res = 0 \<longrightarrow>
      BroadcastTransaction env ctx w otxn ogas =
        (Return (if Data res = [] then (Some [], None) else hex_DecodeString (Data res)),
         ctx\<lparr>account := (account ctx)\<lparr>Sequence := Sequence (account ctx) + 1\<rparr>\<rparr>, w1)
      \<and> (even (length (Data res)) \<and> (\<forall>c\<in>set (Data res). fromHexChar c \<noteq> None) \<longrightarrow>
            snd (hex_DecodeString (Data res)) = None)"
    using BroadcastTransaction_code_0 [of env ctx w otxn ogas res txn1 w1]
    by (simp add: h hex_Decode_error)
  have b: "SendTransactions env ctx w txns = (rs, ctx', w')
        \<and> (\<forall>r\<in>set rs. \<exists>b. r = Return (b, None))
        \<and> count is_lookup w' = count is_lookup w \<longrightarrow>
      length rs = length txns
      \<and> Sequence (account ctx') = Sequence (account ctx) + of_nat (length txns)"
    using SendTransactions_in_step [of env ctx w txns rs ctx' w'] by auto
  show ?thesis
    using a b by blast
qed

text \<open>
  C10. When the response has the code 0 and a nonempty \<open>data\<close> that is not hexadecimal (an
  odd number of characters, or a character that is no hexadecimal digit),
  \<open>BroadcastTransaction\<close> returns an error, together with the bytes decoded before the
  fault, and the sequence of the account has been incremented all the same.
\<close>

theorem bad_hex_error_leaves_sequence_incremented:
  assumes "send env ctx w otxn ogas = Received res txn1 w1"
    and "Code res = 0"
    and "Data res \<noteq> []"
    and "odd (length (Data res)) \<or> (\<exists>c\<in>set (Data res). fromHexChar c = None)"
  shows "\<exists>bytes err ctx'.
           BroadcastTransaction env ctx w otxn ogas = (Return (Some bytes, Some err), ctx', w1)
         \<and> Sequence (account ctx') = Sequence (account ctx) + 1"
proof -
  obtain bytes e where d: "hex_Decode (Data res) = (bytes, e)"
    by (cases "hex_Decode (Data res)") auto
  with assms(4) hex_Decode_error [of "Data res"] obtain err where "e = Some err"
    by (cases e) auto
  with d have "hex_DecodeString (Data res) = (Some bytes, Some err)"
    by (simp add: hex_DecodeString_def)
  with BroadcastTransaction_code_0 [OF assms(1,2)] assms(3) show ?thesis
    by simp
qed

theorem success_adds_one_to_sequence_witness:
  "(\<exists>w1. BroadcastTransaction (stub_ledger template_body (\<lambda>n. success_body ''0a0b'')) stub_client []
           (Some stub_payload) (Some stub_gas)
         = (Return (Some [10, 11], None),
            stub_client\<lparr>account := \<lparr>AccountNumber = 7, Sequence = 4\<rparr>\<rparr>, w1))
   \<and> (\<exists>rs ctx' w'.
         SendTransactions (stub_ledger template_body (\<lambda>n. success_body ''0a0b'')) stub_client []
           [stub_txn (Some stub_gas), stub_txn (Some stub_gas)] = (rs, ctx', w')
       \<and> length rs = 2 \<and> Sequence (account ctx') = 5)"
proof -
  let ?env = "stub_ledger template_body (\<lambda>n. success_body ''0a0b'')"
  let ?res = "\<lparr>Height = ''0'', TxHash = ''3F59'', Data = ''0a0b'', Codespace = [], Code = 0,
                 RawLog = ''[]'', GasWanted = []\<rparr>"
  obtain txn1 w1 where
    s: "send ?env stub_client [] (Some stub_payload) (Some stub_gas) = Received ?res txn1 w1"
    using stub_send_code_0 [of "''0a0b''"] by blast
  have "BroadcastTransaction ?env stub_client [] (Some stub_payload) (Some stub_gas)
         = (Return (Some [10, 11], None),
            stub_client\<lparr>account := \<lparr>AccountNumber = 7, Sequence = 4\<rparr>\<rparr>, w1)"
    using success_adds_one_to_sequence
      [of ?env stub_client "[]" "Some stub_payload" "Some stub_gas" ?res txn1 w1, THEN conjunct1] s
    by (simp add: hex_DecodeString_def fromHexChar_def stub_client_def)
  then have a: "\<exists>w1. BroadcastTransaction ?env stub_client [] (Some stub_payload) (Some stub_gas)
         = (Return (Some [10, 11], None),
            stub_client\<lparr>account := \<lparr>AccountNumber = 7, Sequence = 4\<rparr>\<rparr>, w1)"
    by blast
  obtain rs ctx' w' where
    r: "SendTransactions ?env stub_client [] [stub_txn (Some stub_gas), stub_txn (Some stub_gas)]
          = (rs, ctx', w')"
    by (cases "SendTransactions ?env stub_client [] [stub_txn (Some stub_gas), stub_txn (Some stub_gas)]")
      auto
  note e = stub_two_submissions [OF r]
  have "length rs = length [stub_txn (Some stub_gas), stub_txn (Some stub_gas)]
      \<and> Sequence (account ctx') = Sequence (account stub_client)
            + of_nat (length [stub_txn (Some stub_gas), stub_txn (Some stub_gas)])"
    using success_adds_one_to_sequence
      [of ?env stub_client "[]" None None undefined undefined undefined
          "[stub_txn (Some stub_gas), stub_txn (Some stub_gas)]" rs ctx' w', THEN conjunct2] r e
    by (simp add: count_def)
  then have "length rs = 2 \<and> Sequence (account ctx') = 5"
    by (simp add: stub_client_def)
  with r a show ?thesis
    by blast
qed

theorem bad_hex_error_leaves_sequence_incremented_witness:
  "\<exists>bytes err ctx' w1.
      BroadcastTransaction (stub_ledger template_body (\<lambda>n. success_body ''0azz'')) stub_client []
        (Some stub_payload) (Some stub_gas) = (Return (Some bytes, Some err), ctx', w1)
    \<and> Sequence (account ctx') = 4"
proof -
  let ?env = "stub_ledger template_body (\<lambda>n. success_body ''0azz'')"
  let ?res = "\<lparr>Height = ''0'', TxHash = ''3F59'', Data = ''0azz'', Codespace = [], Code = 0,
                 RawLog = ''[]'', GasWanted = []\<rparr>"
  obtain txn1 w1 where
    s: "send ?env stub_client [] (Some stub_payload) (Some stub_gas) = Received ?res txn1 w1"
    using stub_send_code_0 [of "''0azz''"] by blast
  have "\<exists>bytes err ctx'.
           BroadcastTransaction ?env stub_client [] (Some stub_payload) (Some stub_gas)
             = (Return (Some bytes, Some err), ctx', w1)
         \<and> Sequence (account ctx') = Sequence (account stub_client) + 1"
    by (rule bad_hex_error_leaves_sequence_incremented [OF s])
       (simp_all add: fromHexChar_def)
  then show ?thesis
    by (auto simp: stub_client_def)
qed

subsection \<open>Memos\<close>

lemma memos_append: "memos (xs @ ys) = memos xs @ memos ys"
  by (simp add: memos_def List.map_filter_def)

lemma set_fee_keeps_Memo: "set_fee txn g = Return txn1 \<Longrightarrow> Memo txn1 = Memo txn"
  by (auto simp: set_fee_def Let_def split: option.splits go.splits prod.splits if_splits)

text \<open>
  A pass reads the clock once. When it sends a request, the payload of the request
  carries the string generated from that reading.
\<close>

lemma send_Received_memo:
  assumes "send env ctx w otxn ogas = Received res txn' w'"
  shows "memos w' = memos w @ [random_string env (clock env (count is_clock w)) 32]"
    and "count is_clock w' = Suc (count is_clock w)"
proof -
  from send_Received [OF assms] obtain txn g txn1 signature where
    f: "set_fee (txn\<lparr>Memo := random_string env (clock env (count is_clock w)) 32\<rparr>) g = Return txn1"
    and t: "txn' = txn1\<lparr>Signatures :=
              [Some \<lparr>ts_AccountNumber = Itoa (AccountNumber (account ctx)),
                     ts_PubKey = Some \<lparr>pk_Type = PubKeyAminoName, pk_Value = privateKey_PubKey env\<rparr>,
                     ts_Sequence = Itoa (Sequence (account ctx)),
                     ts_Signature = signature\<rparr>]\<rparr>"
    by auto
  from set_fee_keeps_Memo [OF f] t
  have m: "Memo txn' = random_string env (clock env (count is_clock w)) 32"
    by simp
  note tr = send_Received_trace [OF assms]
  show "memos w' = memos w @ [random_string env (clock env (count is_clock w)) 32]"
    by (subst tr) (simp add: memos_append, simp add: memos_def List.map_filter_def m)
  show "count is_clock w' = Suc (count is_clock w)"
    by (subst tr) (simp add: count_def)
qed

lemma send_Ended_memo:
  assumes "send env ctx w otxn ogas = Ended r w'"
  shows "memos w' = memos w \<or> memos w' = memos w @ [random_string env (clock env (count is_clock w)) 32]"
  using assms
  by (auto simp: send_def makeRandomString_def APIMutate_def Let_def memos_append
        memos_def List.map_filter_def count_def
      dest!: set_fee_keeps_Memo
      split: option.splits go.splits prod.splits sum.splits if_splits exchange.splits)

lemma memos_of_call:
  "BroadcastTransaction env ctx w otxn ogas = (r, ctx', w') \<Longrightarrow>
   \<exists>k. memos w' = memos w @ map (\<lambda>i. random_string env (clock env (count is_clock w + i)) 32) [0..<k]"
proof (induction env ctx w otxn ogas rule: BroadcastTransaction_retry_induct)
  case (call env ctx w otxn ogas)
  let ?m = "\<lambda>i. random_string env (clock env (count is_clock w + i)) 32"
  have zero: ?case if "memos w' = memos w"
    using that by (intro exI [of _ 0]) simp
  have one: ?case if "memos w' = memos w @ [random_string env (clock env (count is_clock w)) 32]"
    using that by (intro exI [of _ 1]) simp
  from call.prems show ?case
  proof (cases rule: BroadcastTransaction_cases)
    case (Ended w1)
    with send_Ended_memo [OF Ended(1)] zero one show ?thesis
      by blast
  next
    case (Success res txn1)
    with send_Received_memo(1) [OF Success(1)] show ?thesis
      by (intro one) simp
  next
    case (Fatal res txn1)
    with send_Received_memo(1) [OF Fatal(1)] show ?thesis
      by (intro one) simp
  next
    case (Exhausted res txn1)
    with send_Received_memo(1) [OF Exhausted(1)] show ?thesis
      by (intro one) simp
  next
    case (Lookup res txn1 w1 e)
    have "memos w' = memos w1"
      using setAccount_result(1) [OF Lookup(5)]
      by (simp add: memos_append) (simp add: memos_def List.map_filter_def)
    with send_Received_memo(1) [OF Lookup(1)] show ?thesis
      by (intro one) simp
  next
    case (Retry res txn1 w1 ctx2 w2)
    have w2: "memos w2 = memos w1" "count is_clock w2 = count is_clock w1"
      using setAccount_result(1) [OF Retry(5)]
      by (simp_all add: memos_append count_append) (simp_all add: memos_def List.map_filter_def count_def)
    from call.IH [OF Retry(1-6)] obtain k where
      k: "memos w' = memos w2 @ map (\<lambda>i. random_string env (clock env (count is_clock w2 + i)) 32) [0..<k]"
      by auto
    have "map ?m [0..<Suc k] = ?m 0 # map (\<lambda>i. ?m (Suc i)) [0..<k]"
      by (simp only: map_upt_Suc) 
    then have "memos w' = memos w @ map ?m [0..<Suc k]"
      using k w2 send_Received_memo [OF Retry(1)] by simp
    then show ?thesis
      by (rule exI)
  qed
qed

lemma distinct_chars: "distinct chars" "length chars = 62"
  by (simp_all add: chars_def)

lemma random_string_32:
  "length (random_string env seed 32) = 32"
  "set (random_string env seed 32) \<subseteq> set chars"
  "random_string env seed 32 = random_string env seed' 32
     \<longleftrightarrow> (\<forall>i<32. rng env seed i mod 62 = rng env seed' i mod 62)"
proof -
  show "length (random_string env seed 32) = 32"
    by (simp add: random_string_def)
  show "set (random_string env seed 32) \<subseteq> set chars"
    by (auto simp: random_string_def Intn_def distinct_chars)
  have "chars ! (a mod 62) = chars ! (b mod 62) \<longleftrightarrow> a mod 62 = b mod 62" for a b :: nat
    by (simp add: nth_eq_iff_index_eq distinct_chars)
  then show "random_string env seed 32 = random_string env seed' 32
     \<longleftrightarrow> (\<forall>i<32. rng env seed i mod 62 = rng env seed' i mod 62)"
    by (auto simp: random_string_def Intn_def distinct_chars)
qed

text \<open>
  C5, as the code has it. Every pass of \<open>BroadcastTransaction\<close>, the first one and each
  retry, reads the clock anew, seeds the generator with the reading and sets the memo to
  the 32 characters generated, all from the 62 letters and digits; the requests a call
  sends carry, in order, the strings of the successive clock readings. Two such
  strings are equal exactly when the 32 numbers drawn agree modulo 62: nothing makes the
  memo of a retry differ from the one before.
\<close>

theorem every_pass_generates_its_memo:
  assumes "BroadcastTransaction env ctx w otxn ogas = (r, ctx', w')"
  shows "(\<exists>k. memos w' = memos w @ map (\<lambda>i. random_string env (clock env (count is_clock w + i)) 32) [0..<k])
       \<and> (\<forall>seed. length (random_string env seed 32) = 32 \<and> set (random_string env seed 32) \<subseteq> set chars)
       \<and> (\<forall>seed seed'. random_string env seed 32 = random_string env seed' 32
             \<longleftrightarrow> (\<forall>i<32. rng env seed i mod 62 = rng env seed' i mod 62))"
  using memos_of_call [OF assms] random_string_32 [of env] by blast

lemma stub_retry_run:
  "BroadcastTransaction (stub_ledger template_body (\<lambda>n. if n < 1 then conflict_body else success_body []))
     stub_client [] (Some stub_payload) (Some stub_gas) = (r, ctx', w')
   \<Longrightarrow> r = Return (Some [], None)
     \<and> memos w' = [''ABCDEFGHIJKLMNOPQRSTUVWXYZabcdef'', ''BCDEFGHIJKLMNOPQRSTUVWXYZabcdefg'']"
  by (auto simp add: run_defs BroadcastTransaction.simps List.map_filter_def upt_32)

theorem every_pass_generates_its_memo_witness:
  "\<exists>r ctx' w' k.
      BroadcastTransaction (stub_ledger template_body (\<lambda>n. if n < 1 then conflict_body else success_body []))
        stub_client [] (Some stub_payload) (Some stub_gas) = (r, ctx', w')
    \<and> memos w' = [''ABCDEFGHIJKLMNOPQRSTUVWXYZabcdef'', ''BCDEFGHIJKLMNOPQRSTUVWXYZabcdefg'']
    \<and> memos w' = map (\<lambda>i. random_string
          (stub_ledger template_body (\<lambda>n. if n < 1 then conflict_body else success_body []))
          (int i) 32) [0..<k]"
proof -
  let ?env = "stub_ledger template_body (\<lambda>n. if n < 1 then conflict_body else success_body [])"
  obtain r ctx' w' where
    b: "BroadcastTransaction ?env stub_client [] (Some stub_payload) (Some stub_gas) = (r, ctx', w')"
    by (cases "BroadcastTransaction ?env stub_client [] (Some stub_payload) (Some stub_gas)") auto
  from every_pass_generates_its_memo [OF b] obtain k where
    "memos w' = memos [] @ map (\<lambda>i. random_string ?env (clock ?env (count is_clock [] + i)) 32) [0..<k]"
    by blast
  then have "memos w' = map (\<lambda>i. random_string ?env (int i) 32) [0..<k]"
    by (simp add: memos_def List.map_filter_def count_def stub_ledger_def)
  with b stub_retry_run [OF b] show ?thesis
    by blast
qed

text \<open>
  The claim as stated fails. On the ledger whose clock gives the same reading at both
  passes (a wall clock can be set back between two readings), and on the ledger whose
  readings are 2147483647 nanoseconds apart under a generator that reduces its seed
  modulo \<open>2^31 - 1\<close>, the first attempt ends in a sequence conflict and the retry carries
  the memo of the first attempt.
\<close>

theorem retry_memo_counterexample:
  "memos (snd (snd (SendTransaction stuck_clock_ledger stub_client [] (stub_txn (Some stub_gas)))))
   = [''mnopqrstuvwxyz0123456789ABCDEFGH'', ''mnopqrstuvwxyz0123456789ABCDEFGH'']
   \<and> memos (snd (snd (SendTransaction reduced_seed_ledger stub_client [] (stub_txn (Some stub_gas)))))
   = [''UVWXYZabcdefghijklmnopqrstuvwxyz'', ''UVWXYZabcdefghijklmnopqrstuvwxyz'']"
proof -
  have a: "memos (snd (snd (SendTransaction stuck_clock_ledger stub_client []
              (stub_txn (Some stub_gas)))))
   = [''mnopqrstuvwxyz0123456789ABCDEFGH'', ''mnopqrstuvwxyz0123456789ABCDEFGH'']"
    by (simp add: stuck_clock_ledger_def conflict_then_success_def run_defs
        BroadcastTransaction.simps List.map_filter_def upt_32)
  have b: "memos (snd (snd (SendTransaction reduced_seed_ledger stub_client []
              (stub_txn (Some stub_gas)))))
   = [''UVWXYZabcdefghijklmnopqrstuvwxyz'', ''UVWXYZabcdefghijklmnopqrstuvwxyz'']"
    by (simp add: reduced_seed_ledger_def conflict_then_success_def run_defs
        BroadcastTransaction.simps List.map_filter_def upt_32)
  show ?thesis
    using a b by (rule conjI)
qed

subsection \<open>The error envelope\<close>




subsection \<open>Signatures\<close>

lemma find_index_nth:
  "distinct xs \<Longrightarrow> i < length xs \<Longrightarrow> find_index (xs ! i) xs = Some i"
proof (induction xs arbitrary: i)
  case Nil
  then show ?case by simp
next
  case (Cons x xs)
  show ?case
  proof (cases i)
    case 0
    then show ?thesis by simp
  next
    case (Suc j)
    with Cons.prems have "xs ! j \<in> set xs" "x \<notin> set xs"
      by auto
    then have "xs ! j \<noteq> x"
      by auto
    with Cons Suc show ?thesis
      by simp
  qed
qed

lemma distinct_encodeStd: "distinct encodeStd"
  by (simp add: encodeStd_def)

lemma length_encodeStd: "length encodeStd = 64"
  by (simp add: encodeStd_def)

lemma b64_index_char: "b64_index (b64_char v) = Some (v mod 64)"
  by (simp add: b64_index_def b64_char_def find_index_nth distinct_encodeStd length_encodeStd)

lemma b64_char_not_padding: "b64_char v \<noteq> StdPadding"
proof -
  have "StdPadding \<notin> set encodeStd"
    by (simp add: encodeStd_def StdPadding_def)
  moreover have "b64_char v \<in> set encodeStd"
    by (simp add: b64_char_def length_encodeStd)
  ultimately show ?thesis
    by metis
qed

lemma sextets:
  fixes v :: nat
  assumes "v < 16777216"
  shows "v div 262144 mod 64 * 64 + v div 4096 mod 64 = v div 4096"
    and "v div 4096 * 64 + v div 64 mod 64 = v div 64"
    and "v div 64 * 64 + v mod 64 = v"
proof -
  have a: "v div 4096 = v div 64 div 64"
    by (simp add: div_mult2_eq [symmetric])
  have b: "v div 262144 = v div 4096 div 64"
    by (simp add: div_mult2_eq [symmetric])
  have c: "v div 262144 < 64"
    using assms by (simp add: div_less_iff_less_mult)
  show "v div 262144 mod 64 * 64 + v div 4096 mod 64 = v div 4096"
    using c by (simp add: b)
  show "v div 4096 * 64 + v div 64 mod 64 = v div 64"
    by (simp add: a)
  show "v div 64 * 64 + v mod 64 = v"
    by simp
qed

lemma bytes3:
  fixes a b c :: nat
  assumes "a < 256" "b < 256" "c < 256"
  shows "a * 65536 + b * 256 + c < 16777216"
    and "(a * 65536 + b * 256 + c) div 65536 = a"
    and "(a * 65536 + b * 256 + c) div 256 = a * 256 + b"
  using assms by simp_all

lemma byte_256: "(256 :: byte) = 0" "(65536 :: byte) = 0"
  using word_of_nat_eq_0_iff [where ?'a = 8, of 256] word_of_nat_eq_0_iff [where ?'a = 8, of 65536]
  by simp_all

lemma byte_of_nat_simps:
  fixes a b c :: byte
  shows "(of_nat (unat a * 256 + unat b) :: byte) = b"
    and "(of_nat (unat a * 65536 + unat b * 256 + unat c) :: byte) = c"
  by (simp_all add: byte_256)

lemma unat_byte_less: "unat (a :: byte) < 256"
  using unsigned_less [of a, where ?'a = nat] by simp

lemma decode_quad:
  assumes "v < 16777216"
  shows "DecodeString (b64_char (v div 262144) # b64_char (v div 4096) # b64_char (v div 64)
           # b64_char v # src)
         = map_option (\<lambda>dst. [of_nat (v div 65536), of_nat (v div 256), of_nat v] @ dst)
             (DecodeString src)"
  by (simp only: DecodeString.simps b64_index_char prod.case option.case b64_char_not_padding
        simp_thms if_False Let_def sextets [OF assms])

lemma decode_pad1:
  assumes "v < 16777216"
  shows "DecodeString [b64_char (v div 262144), b64_char (v div 4096), b64_char (v div 64), StdPadding]
         = Some [of_nat (v div 65536), of_nat (v div 256)]"
proof -
  have "v div 64 div 1024 = v div 65536" "v div 64 div 4 = v div 256"
    by (simp_all add: div_mult2_eq [symmetric])
  then show ?thesis
    by (simp only: DecodeString.simps b64_index_char prod.case option.case b64_char_not_padding
        simp_thms if_False if_True Let_def sextets [OF assms])
qed

lemma decode_pad2:
  assumes "v < 16777216"
  shows "DecodeString [b64_char (v div 262144), b64_char (v div 4096), StdPadding, StdPadding]
         = Some [of_nat (v div 65536)]"
proof -
  have "v div 4096 div 16 = v div 65536"
    by (simp_all add: div_mult2_eq [symmetric])
  then show ?thesis
    by (simp only: DecodeString.simps b64_index_char prod.case option.case b64_char_not_padding
        simp_thms if_False if_True Let_def sextets [OF assms])
qed

lemma DecodeString_EncodeToString: "DecodeString (EncodeToString src) = Some src"
proof (induction src rule: EncodeToString.induct)
  case (1 a b c src)
  define v where "v = unat a * 65536 + unat b * 256 + unat c"
  have v: "v < 16777216" "v div 65536 = unat a" "v div 256 = unat a * 256 + unat b"
    unfolding v_def using bytes3 [OF unat_byte_less unat_byte_less unat_byte_less, of a b c]
    by simp_all
  have enc: "EncodeToString (a # b # c # src) =
      b64_char (v div 262144) # b64_char (v div 4096) # b64_char (v div 64) # b64_char v
        # EncodeToString src"
    by (simp add: v_def Let_def)
  have "[of_nat (v div 65536), of_nat (v div 256), of_nat v] = [a, b, c]"
    unfolding v by (simp add: v_def byte_256)
  then show ?case
    unfolding enc decode_quad [OF v(1)] using 1 by simp
next
  case (2 a b)
  define v where "v = unat a * 65536 + unat b * 256"
  have v: "v < 16777216" "v div 65536 = unat a" "v div 256 = unat a * 256 + unat b"
    unfolding v_def using bytes3 [OF unat_byte_less unat_byte_less, of 0 a b]
    by simp_all
  have enc: "EncodeToString [a, b] =
      [b64_char (v div 262144), b64_char (v div 4096), b64_char (v div 64), StdPadding]"
    by (simp add: v_def Let_def)
  have "[of_nat (v div 65536), of_nat (v div 256)] = [a, b]"
    unfolding v by (simp add: byte_256)
  then show ?case
    unfolding enc decode_pad1 [OF v(1)] by simp
next
  case (3 a)
  define v where "v = unat a * 65536"
  have v: "v < 16777216" "v div 65536 = unat a"
    unfolding v_def using unat_byte_less [of a]
    by simp_all
  have enc: "EncodeToString [a] =
      [b64_char (v div 262144), b64_char (v div 4096), StdPadding, StdPadding]"
    by (simp add: v_def Let_def)
  show ?case
    unfolding enc decode_pad2 [OF v(1)] v by simp
next
  case 4
  then show ?case by simp
qed

lemma serializeSig_padded:
  assumes "length (big_Bytes (sig_R sg)) \<le> 32" and "length (big_Bytes (sig_S sg)) \<le> 32"
  shows "serializeSig sg =
         Return (replicate (32 - length (big_Bytes (sig_R sg))) 0 @ big_Bytes (sig_R sg)
                 @ replicate (32 - length (big_Bytes (sig_S sg))) 0 @ big_Bytes (sig_S sg))"
proof -
  define r where "r = big_Bytes (sig_R sg)"
  define s where "s = big_Bytes (sig_S sg)"
  have l: "length r \<le> 32" "length s \<le> 32"
    using assms by (simp_all add: r_def s_def)
  have c1: "copy_into (replicate 64 0) (32 - length r) r = replicate (32 - length r) 0 @ r @ replicate 32 0"
    using l by (simp add: copy_into_def min_def)
  have c2: "copy_into (replicate (32 - length r) 0 @ r @ replicate 32 0) (64 - length s) s
            = replicate (32 - length r) 0 @ r @ replicate (32 - length s) 0 @ s"
    using l by (simp add: copy_into_def min_def; arith)
  show ?thesis
    using l c1 c2 by (simp add: serializeSig_def Let_def r_def [symmetric] s_def [symmetric])
qed

text \<open>
  C7. When R and S have at most 32 bytes each, \<open>SignTransaction\<close> returns a string whose
  base64 decoding is 64 bytes long: the bytes of R behind zeros up to 32 bytes, then the
  bytes of S behind zeros up to 32 bytes.
\<close>

theorem signature_decodes_to_padded_R_S:
  assumes "privateKey_Sign env
             \<lparr>sp_AccountNumber = Itoa (AccountNumber (account ctx)),
              sp_ChainId = ChainId (options ctx),
              sp_Fee = Fee txn,
              sp_Memo = Memo txn,
              sp_Msgs = Msg txn,
              sp_Sequence = Itoa (Sequence (account ctx))\<rparr> = Inr sg"
    and "length (big_Bytes (sig_R sg)) \<le> 32"
    and "length (big_Bytes (sig_S sg)) \<le> 32"
  shows "\<exists>signature sigBytes.
           SignTransaction env ctx txn = Return (signature, None)
         \<and> DecodeString signature = Some sigBytes
         \<and> length sigBytes = 64
         \<and> take 32 sigBytes = replicate (32 - length (big_Bytes (sig_R sg))) 0 @ big_Bytes (sig_R sg)
         \<and> drop 32 sigBytes = replicate (32 - length (big_Bytes (sig_S sg))) 0 @ big_Bytes (sig_S sg)"
proof -
  let ?bytes = "replicate (32 - length (big_Bytes (sig_R sg))) 0 @ big_Bytes (sig_R sg)
                 @ replicate (32 - length (big_Bytes (sig_S sg))) 0 @ big_Bytes (sig_S sg)"
  have "SignTransaction env ctx txn = Return (EncodeToString ?bytes, None)"
    using assms by (simp add: SignTransaction_def Let_def serializeSig_padded)
  moreover have "DecodeString (EncodeToString ?bytes) = Some ?bytes"
    by (rule DecodeString_EncodeToString)
  moreover have "length ?bytes = 64"
    using assms(2,3) by simp
  moreover have "take 32 ?bytes = replicate (32 - length (big_Bytes (sig_R sg))) 0 @ big_Bytes (sig_R sg)"
    using assms(2,3) by simp
  moreover have "drop 32 ?bytes = replicate (32 - length (big_Bytes (sig_S sg))) 0 @ big_Bytes (sig_S sg)"
    using assms(2,3) by simp
  ultimately show ?thesis
    by blast
qed

lemma big_Bytes_258: "big_Bytes 258 = [1, 2]" "big_Bytes 3 = [3]"
  by (simp_all add: big_Bytes.simps)

theorem signature_decodes_to_padded_R_S_witness:
  "\<exists>signature sigBytes.
      SignTransaction (stub_ledger template_body (\<lambda>n. conflict_body)) stub_client
        \<lparr>Fee = None, Memo = ''m'', Msg = [], Signatures = []\<rparr> = Return (signature, None)
    \<and> DecodeString signature = Some sigBytes
    \<and> length sigBytes = 64
    \<and> take 32 sigBytes = replicate 30 0 @ [1, 2]
    \<and> drop 32 sigBytes = replicate 31 0 @ [3]"
  using signature_decodes_to_padded_R_S
    [of "stub_ledger template_body (\<lambda>n. conflict_body)" stub_client
        "\<lparr>Fee = None, Memo = ''m'', Msg = [], Signatures = []\<rparr>" "\<lparr>sig_R = 258, sig_S = 3\<rparr>"]
  by (simp add: stub_ledger_def big_Bytes_258)

lemma sint_go_div_5: "sint (go_div x 5) = sint x sdiv 5"
proof -
  have b: "- (2 ^ 63) \<le> sint x" "sint x < 2 ^ 63"
    using sint_range_size [of x] by (simp_all add: word_size)
  have "- (2 ^ 63) \<le> sint x sdiv 5 \<and> sint x sdiv 5 < 2 ^ 63"
    using b by (auto simp: signed_divide_int_def sgn_if abs_if)
  then have "signed_take_bit 63 (sint x sdiv 5) = sint x sdiv 5"
    by (simp add: signed_take_bit_int_eq_self)
  then show ?thesis
    by (simp add: go_div_def sint_word_ariths Word.sint_sbintrunc')
qed

lemma lease_seconds_word:
  fixes d h m s :: int64
  shows "d * 86400 + h * 3600 + m * 60 + s =
         word_of_int (sint d * 86400 + sint h * 3600 + sint m * 60 + sint s)"
  by simp

lemma sint_lease_seconds:
  fixes d h m s :: int64
  shows "sint (d * 86400 + h * 3600 + m * 60 + s) =
         signed_take_bit 63 (sint d * 86400 + sint h * 3600 + sint m * 60 + sint s)"
proof -
  have "sint (word_of_int (sint d * 86400 + sint h * 3600 + sint m * 60 + sint s) :: int64) =
        signed_take_bit 63 (sint d * 86400 + sint h * 3600 + sint m * 60 + sint s)"
    by (simp only: Word.sint_sbintrunc') simp
  then show ?thesis
    by (simp only: lease_seconds_word [symmetric])
qed

text \<open>
  C8. \<open>ToBlocks\<close> returns \<open>days*86400 + hours*3600 + minutes*60 + seconds\<close>, computed in
  \<open>int64\<close>, divided by the block time of 5 seconds with Go's truncating division: as a
  word, as an integer (the sum wrapped to 64 bits), and with the sum itself whenever the
  sum fits 64 bits. One day is 17280 blocks.
\<close>

theorem ToBlocks_seconds_div_block_time:
  fixes lease :: LeaseInfo
  defines "secs \<equiv> sint (Days lease) * 86400 + sint (Hours lease) * 3600
                      + sint (Minutes lease) * 60 + sint (Seconds lease)"
  shows "ToBlocks lease =
           go_div (Days lease * 86400 + Hours lease * 3600 + Minutes lease * 60 + Seconds lease)
             BLOCK_TIME_IN_SECONDS
         \<and> sint (ToBlocks lease) = signed_take_bit 63 secs sdiv 5
         \<and> (- (2 ^ 63) \<le> secs \<and> secs < 2 ^ 63 \<longrightarrow> sint (ToBlocks lease) = secs sdiv 5)
         \<and> ToBlocks \<lparr>Days = 1, Hours = 0, Minutes = 0, Seconds = 0\<rparr> = 17280"
proof -
  have w: "ToBlocks lease =
           go_div (Days lease * 86400 + Hours lease * 3600 + Minutes lease * 60 + Seconds lease)
             BLOCK_TIME_IN_SECONDS"
    by (simp add: ToBlocks_def Let_def mult.commute)
  have i: "sint (ToBlocks lease) = signed_take_bit 63 secs sdiv 5"
    unfolding secs_def w
    by (simp only: BLOCK_TIME_IN_SECONDS_def sint_go_div_5 sint_lease_seconds)
  have r: "- (2 ^ 63) \<le> secs \<and> secs < 2 ^ 63 \<longrightarrow> sint (ToBlocks lease) = secs sdiv 5"
    using i by (simp add: signed_take_bit_int_eq_self)
  have d: "ToBlocks \<lparr>Days = 1, Hours = 0, Minutes = 0, Seconds = 0\<rparr> = 17280"
    by (simp add: ToBlocks_def go_div_def BLOCK_TIME_IN_SECONDS_def signed_divide_int_def)
  show ?thesis
    using w i r d by blast
qed

theorem ToBlocks_seconds_div_block_time_witness:
  "sint (ToBlocks \<lparr>Days = 0, Hours = 0, Minutes = 0, Seconds = - 7\<rparr>) = - 1
   \<and> sint (ToBlocks \<lparr>Days = 2, Hours = 1, Minutes = 1, Seconds = 4\<rparr>) = 35292"
proof -
  have a: "sint (ToBlocks \<lparr>Days = 0, Hours = 0, Minutes = 0, Seconds = - 7\<rparr>) = (- 7) sdiv 5"
    using ToBlocks_seconds_div_block_time
      [of "\<lparr>Days = 0, Hours = 0, Minutes = 0, Seconds = - 7\<rparr>",
       THEN conjunct2, THEN conjunct2, THEN conjunct1]
    by simp
  have b: "sint (ToBlocks \<lparr>Days = 2, Hours = 1, Minutes = 1, Seconds = 4\<rparr>) = 176464 sdiv 5"
    using ToBlocks_seconds_div_block_time
      [of "\<lparr>Days = 2, Hours = 1, Minutes = 1, Seconds = 4\<rparr>",
       THEN conjunct2, THEN conjunct2, THEN conjunct1]
    by simp
  show ?thesis
    using a b by (simp add: signed_divide_int_def)
qed

subsection \<open>A validate response without a payload\<close>

lemma ValidateTransaction_ignores_retries:
  "ValidateTransaction env ctx w (txn\<lparr>txn_broadcastRetries := n\<rparr>) = ValidateTransaction env ctx w txn"
  by (simp add: ValidateTransaction_def)

lemma BroadcastTransaction_nil_payload:
  "BroadcastTransaction env ctx w None gasInfo = (Panic nil_dereference, ctx, w @ [ClockRead])"
  by (subst BroadcastTransaction.simps) (simp add: send_def makeRandomString_def Let_def)

text \<open>What \<open>ValidateTransaction\<close> returns once the ledger has answered its request.\<close>

lemma ValidateTransaction_Responded:
  assumes "request_ok env (ApiRequestMethod txn) (Endpoint (options ctx) @ ApiRequestEndpoint txn)"
    and "transport env (count is_http w)
           \<lparr>rq_Method = ApiRequestMethod txn,
            rq_URL = Endpoint (options ctx) @ ApiRequestEndpoint txn,
            rq_Body = Marshal_TransactionValidateRequest
              \<lparr>vq_BaseReq = Some \<lparr>br_From = Address ctx, br_ChainId = ChainId (options ctx)\<rparr>,
               vq_Key = txn_Key txn,
               vq_KeyValues = txn_KeyValues txn,
               vq_Lease = FormatInt (txn_Lease txn),
               vq_N = FormatUint (txn_N txn),
               vq_NewKey = txn_NewKey txn,
               vq_Owner = Address ctx,
               vq_UUID = UUID (options ctx),
               vq_Value = txn_Value txn\<rparr>\<rparr>
         = Responded res"
    and "parseResponse res = (Some body, None)"
  shows "fst (ValidateTransaction env ctx w txn)
         = (case Unmarshal dec_TransactionValidateResponse \<lparr>vs_Type = [], vs_Value = None\<rparr>
                  (Some body) of
              Inl err \<Rightarrow> Return (None, Some err)
            | Inr r \<Rightarrow> Return (vs_Value r, None))"
  using assms
  by (simp add: ValidateTransaction_def APIMutate_def Let_def split: sum.splits)

lemma nil_payload_panics:
  assumes "fst (ValidateTransaction env ctx w txn) = Return (None, None)"
  shows "fst (ProcessTransaction env ctx w txn) = Panic nil_dereference"
    and "fst (SendTransaction env ctx w txn) = Panic nil_dereference"
proof -
  obtain w1 where v: "ValidateTransaction env ctx w txn = (Return (None, None), w1)"
    using assms by (cases "ValidateTransaction env ctx w txn") simp
  then show p: "fst (ProcessTransaction env ctx w txn) = Panic nil_dereference"
    by (simp add: ProcessTransaction_def Let_def ValidateTransaction_ignores_retries
        BroadcastTransaction_nil_payload)
  then show "fst (SendTransaction env ctx w txn) = Panic nil_dereference"
    by (cases "ProcessTransaction env ctx w txn") (auto simp: SendTransaction_def)
qed

lemma validate_error_returned:
  assumes "fst (ValidateTransaction env ctx w txn) = Return (None, Some err)"
  shows "fst (SendTransaction env ctx w txn) = Return (None, Some err)"
proof -
  obtain w1 where v: "ValidateTransaction env ctx w txn = (Return (None, Some err), w1)"
    using assms by (cases "ValidateTransaction env ctx w txn") simp
  then show ?thesis
    by (simp add: SendTransaction_def ProcessTransaction_def Let_def
        ValidateTransaction_ignores_retries)
qed

text \<open>
  C9, as the code has it. Let the ledger answer the validate request with a response.
  \<^item> Whenever \<open>parseResponse\<close> returns the body with no error and the body decodes, without
    error, into a validate response whose \<open>Value\<close> is \<open>nil\<close>, \<open>ValidateTransaction\<close> returns a
    \<open>nil\<close> payload and a \<open>nil\<close> error; \<open>ProcessTransaction\<close> hands the \<open>nil\<close> payload to
    \<open>BroadcastTransaction\<close>, which panics on writing its memo, whatever the gas policy: the
    submission ends in a nil-pointer panic, not in a returned error.
  \<^item> That is the case of the body \<open>null\<close>, and of a JSON object in which the members named
    \<open>error\<close> are strings or \<open>null\<close> with no string or an empty last one, the members named
    \<open>value\<close> are \<open>null\<close> (or there is none) and the members named \<open>type\<close> are strings or
    \<open>null\<close> (or there is none).
  \<^item> When, in such an object, a member named \<open>type\<close> is neither a string nor \<open>null\<close>, the
    submission returns the type error of the decoder and nothing panics.
\<close>

theorem missing_value_ends_in_nil_panic:
  assumes "request_ok env (ApiRequestMethod txn) (Endpoint (options ctx) @ ApiRequestEndpoint txn)"
    and "transport env (count is_http w)
           \<lparr>rq_Method = ApiRequestMethod txn,
            rq_URL = Endpoint (options ctx) @ ApiRequestEndpoint txn,
            rq_Body = Marshal_TransactionValidateRequest
              \<lparr>vq_BaseReq = Some \<lparr>br_From = Address ctx, br_ChainId = ChainId (options ctx)\<rparr>,
               vq_Key = txn_Key txn,
               vq_KeyValues = txn_KeyValues txn,
               vq_Lease = FormatInt (txn_Lease txn),
               vq_N = FormatUint (txn_N txn),
               vq_NewKey = txn_NewKey txn,
               vq_Owner = Address ctx,
               vq_UUID = UUID (options ctx),
               vq_Value = txn_Value txn\<rparr>\<rparr>
         = Responded res"
  defines "crash \<equiv> fst (ValidateTransaction env ctx w txn) = Return (None, None)
                  \<and> fst (ProcessTransaction env ctx w txn) = Panic nil_dereference
                  \<and> fst (SendTransaction env ctx w txn) = Panic nil_dereference"
  shows "(\<forall>body r. parseResponse res = (Some body, None)
            \<and> Unmarshal dec_TransactionValidateResponse \<lparr>vs_Type = [], vs_Value = None\<rparr>
                 (Some body) = Inr r
            \<and> vs_Value r = None \<longrightarrow> crash)
       \<and> (Body res = ReadAll (Json JNull) \<longrightarrow> crash)
       \<and> (\<forall>ms. Body res = ReadAll (Json (JObject ms))
            \<and> list_all string_or_null (members_of ''error'' ms)
            \<and> strings_into (members_of ''error'' ms) [] = []
            \<and> list_all is_null (members_of ''value'' ms)
            \<and> list_all string_or_null (members_of ''type'' ms) \<longrightarrow> crash)
       \<and> (\<forall>ms. Body res = ReadAll (Json (JObject ms))
            \<and> list_all string_or_null (members_of ''error'' ms)
            \<and> strings_into (members_of ''error'' ms) [] = []
            \<and> list_all is_null (members_of ''value'' ms)
            \<and> \<not> list_all string_or_null (members_of ''type'' ms)
            \<longrightarrow> fst (ValidateTransaction env ctx w txn) = Return (None, Some JsonTypeError)
              \<and> fst (SendTransaction env ctx w txn) = Return (None, Some JsonTypeError))"
proof -
  note v = ValidateTransaction_Responded [OF assms(1,2)]
  have a: crash
    if "parseResponse res = (Some body, None)"
      "Unmarshal dec_TransactionValidateResponse \<lparr>vs_Type = [], vs_Value = None\<rparr>
         (Some body) = Inr r"
      "vs_Value r = None"
    for body r
  proof -
    from v [OF that(1)] that(2,3)
    have "fst (ValidateTransaction env ctx w txn) = Return (None, None)"
      by simp
    with nil_payload_panics [OF this] show ?thesis
      by (simp add: crash_def)
  qed
  have n: crash if "Body res = ReadAll (Json JNull)"
  proof -
    from that have "parseResponse res = (Some (Json JNull), None)"
      by (simp add: parseResponse_def Unmarshal_def)
    then show ?thesis
      by (rule a [where r = "\<lparr>vs_Type = [], vs_Value = None\<rparr>"])
         (simp_all add: Unmarshal_def)
  qed
  have p: "parseResponse res = (Some (Json (JObject ms)), None)"
    if "Body res = ReadAll (Json (JObject ms))"
      "list_all string_or_null (members_of ''error'' ms)"
      "strings_into (members_of ''error'' ms) [] = []"
    for ms
    using that by (simp add: parseResponse_object)
  have b: crash
    if "Body res = ReadAll (Json (JObject ms))"
      "list_all string_or_null (members_of ''error'' ms)"
      "strings_into (members_of ''error'' ms) [] = []"
      "list_all is_null (members_of ''value'' ms)"
      "list_all string_or_null (members_of ''type'' ms)"
    for ms
    by (rule a [OF p [OF that(1-3)],
          where r = "\<lparr>vs_Type = strings_into (members_of ''type'' ms) [], vs_Value = None\<rparr>"])
       (simp_all add: Unmarshal_def dec_TransactionValidateResponse_no_value [OF that(4)] that(5))
  have c: "fst (ValidateTransaction env ctx w txn) = Return (None, Some JsonTypeError)
         \<and> fst (SendTransaction env ctx w txn) = Return (None, Some JsonTypeError)"
    if "Body res = ReadAll (Json (JObject ms))"
      "list_all string_or_null (members_of ''error'' ms)"
      "strings_into (members_of ''error'' ms) [] = []"
      "list_all is_null (members_of ''value'' ms)"
      "\<not> list_all string_or_null (members_of ''type'' ms)"
    for ms
  proof -
    from v [OF p [OF that(1-3)]] that(5)
    have "fst (ValidateTransaction env ctx w txn) = Return (None, Some JsonTypeError)"
      by (simp add: Unmarshal_def dec_TransactionValidateResponse_no_value [OF that(4)])
    with validate_error_returned [OF this] show ?thesis
      by simp
  qed
  show ?thesis
    by (intro conjI impI allI; (elim conjE)?;
        (rule a n b c [THEN conjunct1] c [THEN conjunct2]; assumption)?)
qed

text \<open>
  The body \<open>{"type":"cosmos-sdk/StdTx","error":"","value":null}\<close>: the submission panics.
\<close>

theorem missing_value_ends_in_nil_panic_witness:
  "fst (ValidateTransaction payloadless_ledger stub_client [] (stub_txn (Some stub_gas)))
     = Return (None, None)
   \<and> fst (ProcessTransaction payloadless_ledger stub_client [] (stub_txn (Some stub_gas)))
     = Panic nil_dereference
   \<and> fst (SendTransaction payloadless_ledger stub_client [] (stub_txn (Some stub_gas)))
     = Panic nil_dereference"
proof -
  let ?ms = "[(''type'', JString ''cosmos-sdk/StdTx''), (''error'', JString []), (''value'', JNull)]"
  let ?res = "\<lparr>StatusCode = 200, Body = ReadAll payloadless_body\<rparr>"
  have m: "members_of ''error'' ?ms = [JString []]" "members_of ''value'' ?ms = [JNull]"
    "members_of ''type'' ?ms = [JString ''cosmos-sdk/StdTx'']"
    by (simp_all add: members_of_def same_name_def lower_def)
  have h: "Body ?res = ReadAll (Json (JObject ?ms))
            \<and> list_all string_or_null (members_of ''error'' ?ms)
            \<and> strings_into (members_of ''error'' ?ms) [] = []
            \<and> list_all is_null (members_of ''value'' ?ms)
            \<and> list_all string_or_null (members_of ''type'' ?ms)"
    by (simp add: m payloadless_body_def)
  show ?thesis
    by (rule missing_value_ends_in_nil_panic
          [where res = ?res, THEN conjunct2, THEN conjunct2, THEN conjunct1, rule_format, OF _ _ h])
       (simp_all add: payloadless_ledger_def stub_ledger_def stub_client_def stub_txn_def count_def)
qed

text \<open>
  The claim as stated fails. The body \<open>{"type":5}\<close> is a JSON body with no \<open>error\<close> and no
  \<open>value\<close>: \<open>ValidateTransaction\<close> returns the type error of the decoder, and the submission
  returns it; nothing panics.
\<close>

theorem missing_value_counterexample:
  "fst (ValidateTransaction mistyped_validate_ledger stub_client [] (stub_txn (Some stub_gas)))
     = Return (None, Some JsonTypeError)
   \<and> fst (SendTransaction mistyped_validate_ledger stub_client [] (stub_txn (Some stub_gas)))
     = Return (None, Some JsonTypeError)"
  by (simp add: run_defs mistyped_validate_ledger_def mistyped_validate_body_def)

subsection \<open>Retries under a ledger that always reports the conflict\<close>

lemma set_fee_Return_ok: "set_fee txn g = Return txn1 \<Longrightarrow> fee_ok txn1"
  by (auto simp: set_fee_def Let_def fee_ok_def split: option.splits go.splits prod.splits if_splits)

lemma set_fee_no_panic: "fee_ok txn \<Longrightarrow> set_fee txn g \<noteq> Panic p"
  by (auto simp: set_fee_def Let_def fee_ok_def split: option.splits list.splits prod.splits)

lemma set_fee_ok:
  assumes "fee_ok txn"
  shows "\<exists>txn1. set_fee txn g = Return txn1 \<and> fee_ok txn1"
  using set_fee_no_panic [OF assms, of g] set_fee_Return_ok [of txn g]
  by (cases "set_fee txn g") auto

lemma send_conflict:
  assumes sign: "signs_all env"
    and ok: "request_ok env ''POST'' (Endpoint (options ctx) @ TX_COMMAND)"
    and tr: "always_conflict env"
    and fee: "fee_ok txn"
  shows "\<exists>res txn' rq. send env ctx w (Some txn) (Some g) = Received res txn' (w @ [ClockRead, HttpExchange rq])
           \<and> is_broadcast (HttpExchange rq)
           \<and> Code res \<noteq> 0 \<and> Contains (RawLog res) ''signature verification failed''
           \<and> fee_ok txn'"
proof -
  let ?m = "random_string env (clock env (count is_clock w)) 32"
  have "fee_ok (txn\<lparr>Memo := ?m\<rparr>)"
    using fee by (simp add: fee_ok_def)
  from set_fee_ok [OF this, of g] obtain txn1 where
    f: "set_fee (txn\<lparr>Memo := ?m\<rparr>) g = Return txn1" and f1: "fee_ok txn1"
    by blast
  let ?p = "\<lparr>sp_AccountNumber = Itoa (AccountNumber (account ctx)),
             sp_ChainId = ChainId (options ctx), sp_Fee = Fee txn1, sp_Memo = Memo txn1,
             sp_Msgs = Msg txn1, sp_Sequence = Itoa (Sequence (account ctx))\<rparr>"
  from sign [unfolded signs_all_def, rule_format, of ?p] obtain sg where
    sg: "privateKey_Sign env ?p = Inr sg" "length (big_Bytes (sig_R sg)) \<le> 32"
      "length (big_Bytes (sig_S sg)) \<le> 32"
    by blast
  obtain signature where s: "SignTransaction env ctx txn1 = Return (signature, None)"
    using sg by (simp add: SignTransaction_def Let_def serializeSig_padded)
  let ?txn' = "txn1\<lparr>Signatures :=
              [Some \<lparr>ts_AccountNumber = Itoa (AccountNumber (account ctx)),
                     ts_PubKey = Some \<lparr>pk_Type = PubKeyAminoName, pk_Value = privateKey_PubKey env\<rparr>,
                     ts_Sequence = Itoa (Sequence (account ctx)),
                     ts_Signature = signature\<rparr>]\<rparr>"
  let ?rq = "\<lparr>rq_Method = ''POST'', rq_URL = Endpoint (options ctx) @ TX_COMMAND,
              rq_Body = Marshal_TransactionBroadcastRequest
                \<lparr>bq_Transaction = Some ?txn', bq_Mode = ''block''\<rparr>\<rparr>"
  have b: "is_broadcast (HttpExchange ?rq)"
    by (simp add: is_broadcast_def)
  from tr [unfolded always_conflict_def, rule_format, OF b, of "count is_http (w @ [ClockRead])"]
  obtain resp body res where
    r: "transport env (count is_http (w @ [ClockRead])) ?rq = Responded resp"
      "parseResponse resp = (Some body, None)"
      "Unmarshal dec_TransactionBroadcastResponse
         \<lparr>Height = [], TxHash = [], Data = [], Codespace = [], Code = 0, RawLog = [],
          GasWanted = []\<rparr> (Some body) = Inr res"
      "Code res \<noteq> 0" "Contains (RawLog res) ''signature verification failed''"
    by blast
  have "send env ctx w (Some txn) (Some g) = Received res ?txn' (w @ [ClockRead, HttpExchange ?rq])"
    using f s ok r(1-3) by (simp add: send_def makeRandomString_def APIMutate_def Let_def)
  moreover have "fee_ok ?txn'"
    using f1 by (simp add: fee_ok_def)
  ultimately show ?thesis
    using b r(4,5) by blast
qed

lemma sint_succ:
  fixes r :: go_int
  assumes "sint r < 2 ^ 63 - 1"
  shows "sint (r + 1) = sint r + 1"
proof -
  have "- (2 ^ 63) \<le> sint r"
    using sint_ge [of r] by simp
  with assms have "signed_take_bit 63 (sint r + 1) = sint r + 1"
    by (simp add: signed_take_bit_int_eq_self)
  then show ?thesis
    by (simp add: sint_word_ariths)
qed

lemma is_broadcast_other [simp]:
  "\<not> is_broadcast ClockRead" "\<not> is_broadcast (Sleep d)" "\<not> is_broadcast AccountLookup"
  by (simp_all add: is_broadcast_def)

lemma lookups_after_sleep_pass:
  "lookups_after_sleep (ClockRead # HttpExchange rq # Sleep BROADCAST_RETRY_INTERVAL # AccountLookup # es)
   = lookups_after_sleep es"
  by (simp add: is_sleep_def)

lemma retries_until_exhausted:
  assumes "signs_all env" and "always_conflict env" and "finds_account env"
  shows "request_ok env ''POST'' (Endpoint (options ctx) @ TX_COMMAND) \<Longrightarrow> fee_ok txn \<Longrightarrow>
         sint (broadcastRetries ctx) = 9 - int n \<Longrightarrow>
         \<exists>ctx' es. BroadcastTransaction env ctx w (Some txn) (Some g)
             = (Return (None, Some (Errorf ''txn failed after max retry attempts'')), ctx', w @ es)
           \<and> count is_broadcast es = Suc n \<and> count is_lookup es = n \<and> lookups_after_sleep es
           \<and> broadcastRetries ctx' = 10"
proof (induction n arbitrary: ctx w txn)
  case 0
  from send_conflict [OF assms(1) "0.prems"(1) assms(2) "0.prems"(2), of w g]
  obtain res txn' rq where
    s: "send env ctx w (Some txn) (Some g) = Received res txn' (w @ [ClockRead, HttpExchange rq])"
    and r: "is_broadcast (HttpExchange rq)" "Code res \<noteq> 0"
      "Contains (RawLog res) ''signature verification failed''"
    by blast
  have n: "sint (broadcastRetries ctx + 1) = 10"
    using "0.prems"(3) by (simp add: sint_succ)
  then have x: "sle BROADCAST_MAX_RETRIES (broadcastRetries ctx + 1)"
    by (simp add: sle_def BROADCAST_MAX_RETRIES_def)
  have "word_of_int (sint (broadcastRetries ctx + 1)) = (10 :: go_int)"
    by (simp only: n) simp
  then have t: "broadcastRetries ctx + 1 = 10"
    by simp
  have "count is_broadcast [ClockRead, HttpExchange rq] = Suc 0"
    "count is_lookup [ClockRead, HttpExchange rq] = 0"
    "lookups_after_sleep [ClockRead, HttpExchange rq]"
    using r(1) by (simp_all add: count_def)
  with BroadcastTransaction_exhausted [OF s r(2,3) x] t show ?case
    by simp
next
  case (Suc n)
  from send_conflict [OF assms(1) Suc.prems(1) assms(2) Suc.prems(2), of w g]
  obtain res txn' rq where
    s: "send env ctx w (Some txn) (Some g) = Received res txn' (w @ [ClockRead, HttpExchange rq])"
    and r: "is_broadcast (HttpExchange rq)" "Code res \<noteq> 0"
      "Contains (RawLog res) ''signature verification failed''"
    and f: "fee_ok txn'"
    by blast
  have n: "sint (broadcastRetries ctx + 1) = 9 - int n"
    using Suc.prems(3) by (simp add: sint_succ)
  then have x: "\<not> sle BROADCAST_MAX_RETRIES (broadcastRetries ctx + 1)"
    by (simp add: sle_def BROADCAST_MAX_RETRIES_def)
  let ?w1 = "w @ [ClockRead, HttpExchange rq]"
  from assms(3) obtain a where
    "ledger_account env (count is_lookup (?w1 @ [Sleep BROADCAST_RETRY_INTERVAL])) = Inr a"
    unfolding finds_account_def by blast
  then have sa: "setAccount env (ctx\<lparr>broadcastRetries := broadcastRetries ctx + 1\<rparr>)
      (?w1 @ [Sleep BROADCAST_RETRY_INTERVAL])
    = (None, ctx\<lparr>broadcastRetries := broadcastRetries ctx + 1, account := a\<rparr>,
       ?w1 @ [Sleep BROADCAST_RETRY_INTERVAL] @ [AccountLookup])"
    by (simp add: setAccount_def)
  let ?ctx2 = "ctx\<lparr>broadcastRetries := broadcastRetries ctx + 1, account := a\<rparr>"
  let ?w2 = "?w1 @ [Sleep BROADCAST_RETRY_INTERVAL] @ [AccountLookup]"
  have "\<exists>ctx' es. BroadcastTransaction env ?ctx2 ?w2 (Some txn') (Some g)
             = (Return (None, Some (Errorf ''txn failed after max retry attempts'')), ctx', ?w2 @ es)
           \<and> count is_broadcast es = Suc n \<and> count is_lookup es = n \<and> lookups_after_sleep es
           \<and> broadcastRetries ctx' = 10"
    using Suc.prems(1) f n by (intro Suc.IH) simp_all
  then obtain ctx' es where
    ih: "BroadcastTransaction env ?ctx2 ?w2 (Some txn') (Some g)
             = (Return (None, Some (Errorf ''txn failed after max retry attempts'')), ctx', ?w2 @ es)"
      "count is_broadcast es = Suc n" "count is_lookup es = n" "lookups_after_sleep es"
      "broadcastRetries ctx' = 10"
    by blast
  let ?es = "[ClockRead, HttpExchange rq, Sleep BROADCAST_RETRY_INTERVAL, AccountLookup] @ es"
  have e: "?w2 @ es = w @ ?es"
    by simp
  have c: "count is_broadcast ?es = Suc (Suc n)" "count is_lookup ?es = Suc n"
    "lookups_after_sleep ?es"
    using r(1) ih(2-4)
    by (simp_all add: count_append lookups_after_sleep_pass) (simp_all add: count_def is_sleep_def)
  have "BroadcastTransaction env ctx w (Some txn) (Some g)
        = (Return (None, Some (Errorf ''txn failed after max retry attempts'')), ctx', w @ ?es)"
    using BroadcastTransaction_retry [OF s r(2,3) x sa] ih(1) by (simp only: option.case e)
  with c ih(5) show ?case
    by blast
qed

lemma exhausted_at_once:
  assumes "signs_all env" and "always_conflict env"
    and "request_ok env ''POST'' (Endpoint (options ctx) @ TX_COMMAND)" and "fee_ok txn"
    and "9 \<le> sint (broadcastRetries ctx)" and "sint (broadcastRetries ctx) < 2 ^ 63 - 1"
  shows "\<exists>es. BroadcastTransaction env ctx w (Some txn) (Some g)
             = (Return (None, Some (Errorf ''txn failed after max retry attempts'')),
                ctx\<lparr>broadcastRetries := broadcastRetries ctx + 1\<rparr>, w @ es)
           \<and> count is_broadcast es = 1 \<and> count is_lookup es = 0 \<and> lookups_after_sleep es"
proof -
  from send_conflict [OF assms(1) assms(3) assms(2) assms(4), of w g]
  obtain res txn' rq where
    s: "send env ctx w (Some txn) (Some g) = Received res txn' (w @ [ClockRead, HttpExchange rq])"
    and r: "is_broadcast (HttpExchange rq)" "Code res \<noteq> 0"
      "Contains (RawLog res) ''signature verification failed''"
    by blast
  have x: "sle BROADCAST_MAX_RETRIES (broadcastRetries ctx + 1)"
    using assms(5,6) by (simp add: sle_def BROADCAST_MAX_RETRIES_def sint_succ)
  have "count is_broadcast [ClockRead, HttpExchange rq] = 1"
    "count is_lookup [ClockRead, HttpExchange rq] = 0"
    "lookups_after_sleep [ClockRead, HttpExchange rq]"
    using r(1) by (simp_all add: count_def)
  with BroadcastTransaction_exhausted [OF s r(2,3) x] show ?thesis
    by blast
qed

text \<open>
  C1, as the code has it. \<open>ProcessTransaction\<close> sets \<open>txn.broadcastRetries\<close> to 0, but
  \<open>BroadcastTransaction\<close> counts the retries in \<open>ctx.broadcastRetries\<close>, a field of the client
  that nothing in the pipeline sets back. Against a ledger that answers every broadcast
  with the conflict marker, a submission ends with the error
  \<open>txn failed after max retry attempts\<close>, every account lookup comes right after a sleep of
  one second, and the numbers depend on the counter \<open>c\<close> the client holds when the
  submission starts: \<open>10 - c\<close> broadcast attempts and \<open>9 - c\<close> lookups when \<open>c < 10\<close>, one
  attempt and no lookup otherwise. The counter is left at 10 or more: only the first
  such submission of a client makes 10 attempts and 9 lookups.
\<close>

theorem conflict_retries_count_from_client_counter:
  assumes "signs_all env" and "always_conflict env" and "finds_account env"
    and "request_ok env ''POST'' (Endpoint (options ctx) @ TX_COMMAND)"
    and "txn_GasInfo txn = Some g"
    and "ValidateTransaction env ctx w txn = (Return (Some payload, None), w1)"
    and "fee_ok payload"
    and "sint (broadcastRetries ctx) < 2 ^ 63 - 1"
  shows "\<exists>ctx' es.
           SendTransaction env ctx w txn
             = (Return (None, Some (Errorf ''txn failed after max retry attempts'')), ctx', w1 @ es)
         \<and> count is_broadcast es =
             (if sint (broadcastRetries ctx) < 10 then nat (10 - sint (broadcastRetries ctx)) else 1)
         \<and> count is_lookup es = count is_broadcast es - 1
         \<and> lookups_after_sleep es
         \<and> sint (broadcastRetries ctx') =
             (if sint (broadcastRetries ctx) < 10 then 10 else sint (broadcastRetries ctx) + 1)"
proof -
  have st: "SendTransaction env ctx w txn = (Return r, ctx', w')"
    if "BroadcastTransaction env ctx w1 (Some payload) (Some g) = (Return r, ctx', w')" for r ctx' w'
    using that assms(5,6)
    by (cases r)
       (simp add: SendTransaction_def ProcessTransaction_def Let_def
          ValidateTransaction_ignores_retries)
  show ?thesis
  proof (cases "sint (broadcastRetries ctx) < 10")
    case True
    define n where "n = nat (9 - sint (broadcastRetries ctx))"
    have n: "sint (broadcastRetries ctx) = 9 - int n"
      using True by (simp add: n_def)
    from retries_until_exhausted [OF assms(1-4) assms(7) n, of w1 g]
    obtain ctx' es where
      b: "BroadcastTransaction env ctx w1 (Some payload) (Some g)
            = (Return (None, Some (Errorf ''txn failed after max retry attempts'')), ctx', w1 @ es)"
      and c: "count is_broadcast es = Suc n" "count is_lookup es = n" "lookups_after_sleep es"
        "broadcastRetries ctx' = 10"
      by blast
    have "Suc n = nat (10 - sint (broadcastRetries ctx))"
      using True by (simp add: n_def)
    with st [OF b] c True show ?thesis
      by (intro exI [of _ ctx'] exI [of _ es]) simp
  next
    case False
    then have "9 \<le> sint (broadcastRetries ctx)"
      by simp
    from exhausted_at_once [OF assms(1,2,4,7) this assms(8), of w1 g]
    obtain es where
      b: "BroadcastTransaction env ctx w1 (Some payload) (Some g)
            = (Return (None, Some (Errorf ''txn failed after max retry attempts'')),
               ctx\<lparr>broadcastRetries := broadcastRetries ctx + 1\<rparr>, w1 @ es)"
      and c: "count is_broadcast es = 1" "count is_lookup es = 0" "lookups_after_sleep es"
      by blast
    with st [OF b] False assms(8) show ?thesis
      by (intro exI [of _ "ctx\<lparr>broadcastRetries := broadcastRetries ctx + 1\<rparr>"] exI [of _ es])
         (simp add: sint_succ)
  qed
qed

lemma stub_conflict_ledger:
  "signs_all (stub_ledger v (\<lambda>n. conflict_body))"
  "always_conflict (stub_ledger v (\<lambda>n. conflict_body))"
  "finds_account (stub_ledger v (\<lambda>n. conflict_body))"
  "request_ok (stub_ledger v (\<lambda>n. conflict_body)) method url"
proof -
  show "signs_all (stub_ledger v (\<lambda>n. conflict_body))"
    by (simp add: signs_all_def stub_ledger_def big_Bytes.simps)
  have c: "Contains ''unauthorized: signature verification failed; verify correct account sequence and chain-id''
             ''signature verification failed''"
    by (simp add: Contains_def)
  show "always_conflict (stub_ledger v (\<lambda>n. conflict_body))"
    unfolding always_conflict_def
    by (auto simp: is_broadcast_def stub_ledger_def conflict_body_def parseResponse_def
        Unmarshal_def dec_ErrorResponse_def dec_TransactionBroadcastResponse_def
        decode_struct_def type_ErrorResponse_def type_TransactionBroadcastResponse_def
        as_ErrorResponse_def as_TransactionBroadcastResponse_def field_of_def same_name_def
        lower_def saveError_def c
        split: payload_bytes.splits)
  show "finds_account (stub_ledger v (\<lambda>n. conflict_body))"
    by (simp add: finds_account_def stub_ledger_def)
  show "request_ok (stub_ledger v (\<lambda>n. conflict_body)) method url"
    by (simp add: stub_ledger_def)
qed

lemma stub_validate:
  "\<exists>payload rq. ValidateTransaction (stub_ledger template_body b) ctx w (stub_txn g)
       = (Return (Some payload, None), w @ [HttpExchange rq])
     \<and> fee_ok payload \<and> \<not> is_broadcast (HttpExchange rq)"
  by (simp add: run_defs fee_ok_def)

theorem conflict_retries_count_from_client_counter_witness:
  "\<exists>c1 w1 c2 w2.
      SendTransaction (stub_ledger template_body (\<lambda>n. conflict_body)) stub_client []
        (stub_txn (Some stub_gas))
        = (Return (None, Some (Errorf ''txn failed after max retry attempts'')), c1, w1)
    \<and> count is_broadcast w1 = 10 \<and> count is_lookup w1 = 9
    \<and> SendTransaction (stub_ledger template_body (\<lambda>n. conflict_body)) c1 w1
        (stub_txn (Some stub_gas))
        = (Return (None, Some (Errorf ''txn failed after max retry attempts'')), c2, w2)
    \<and> count is_broadcast w2 = 11 \<and> count is_lookup w2 = 9"
proof -
  let ?env = "stub_ledger template_body (\<lambda>n. conflict_body)"
  let ?txn = "stub_txn (Some stub_gas)"
  let ?err = "Return (None, Some (Errorf ''txn failed after max retry attempts''))"
  have g: "txn_GasInfo ?txn = Some stub_gas"
    by (simp add: stub_txn_def)
  have k: "\<not> is_lookup (HttpExchange rq)" for rq
    by simp
  \<comment> \<open>the first submission: the counter of the client is 0\<close>
  from stub_validate [of "\<lambda>n. conflict_body" stub_client "[]" "Some stub_gas"]
  obtain p1 rq1 where
    v1: "ValidateTransaction ?env stub_client [] ?txn = (Return (Some p1, None), [] @ [HttpExchange rq1])"
    and f1: "fee_ok p1" and b1: "\<not> is_broadcast (HttpExchange rq1)"
    by blast
  have z: "sint (broadcastRetries stub_client) < 2 ^ 63 - 1" "sint (broadcastRetries stub_client) = 0"
    by (simp_all add: stub_client_def)
  from conflict_retries_count_from_client_counter
         [OF stub_conflict_ledger(1-4) g v1 f1 z(1)]
  obtain c1 es1 where
    s1: "SendTransaction ?env stub_client [] ?txn = (?err, c1, ([] @ [HttpExchange rq1]) @ es1)"
    and n1: "count is_broadcast es1 = 10" "count is_lookup es1 = 9" "sint (broadcastRetries c1) = 10"
    by (auto simp: z(2))
  let ?w1 = "([] @ [HttpExchange rq1]) @ es1"
  have t1: "count is_broadcast ?w1 = 10" "count is_lookup ?w1 = 9"
    using n1 b1 by (simp_all add: count_append) (simp_all add: count_def)
  \<comment> \<open>the second submission: the counter of the client is 10\<close>
  from stub_validate [of "\<lambda>n. conflict_body" c1 ?w1 "Some stub_gas"]
  obtain p2 rq2 where
    v2: "ValidateTransaction ?env c1 ?w1 ?txn = (Return (Some p2, None), ?w1 @ [HttpExchange rq2])"
    and f2: "fee_ok p2" and b2: "\<not> is_broadcast (HttpExchange rq2)"
    by blast
  have z2: "sint (broadcastRetries c1) < 2 ^ 63 - 1"
    using n1(3) by simp
  from conflict_retries_count_from_client_counter
         [OF stub_conflict_ledger(1-4) g v2 f2 z2]
  obtain c2 es2 where
    s2: "SendTransaction ?env c1 ?w1 ?txn = (?err, c2, (?w1 @ [HttpExchange rq2]) @ es2)"
    and n2: "count is_broadcast es2 = 1" "count is_lookup es2 = 0"
    by (auto simp: n1(3))
  let ?w2 = "(?w1 @ [HttpExchange rq2]) @ es2"
  have t2: "count is_broadcast ?w2 = 11" "count is_lookup ?w2 = 9"
    using n2 n1 b1 b2 by (simp_all add: count_append) (simp_all add: count_def)
  from s1 t1 s2 t2 show ?thesis
    by blast
qed

subsection \<open>Fee resolution\<close>

lemma fees_append: "fees (xs @ ys) = fees xs @ fees ys"
  by (simp add: fees_def List.map_filter_def)

lemma fees_other [simp]:
  "fees [] = []" "fees (ClockRead # w) = fees w" "fees (Sleep d # w) = fees w"
  "fees (AccountLookup # w) = fees w"
  "fees (HttpExchange \<lparr>rq_Method = m, rq_URL = u, rq_Body = Marshal_TransactionBroadcastRequest
      \<lparr>bq_Transaction = Some t, bq_Mode = b\<rparr>\<rparr> # w) = Fee t # fees w"
  by (simp_all add: fees_def List.map_filter_def)

text \<open>The fee block gives the fee it has written when it is run again on it.\<close>

lemma set_fee_again:
  assumes "set_fee txn g = Return t1" and "Fee t = Fee t1"
  shows "set_fee t g = Return t"
proof -
  from assms(1) obtain fee gas amount where
    f: "Fee txn = Some fee"
    and t1: "t1 = txn\<lparr>Fee := Some \<lparr>fee_Amount = [Some \<lparr>fa_Amount = Itoa amount, fa_Denom = TOKEN_NAME\<rparr>],
                                    fee_Gas = Itoa gas\<rparr>\<rparr>"
    and g: "\<not> (MaxGas g \<noteq> 0 \<and> sint (MaxGas g) < sint gas)"
    and a: "MaxFee g \<noteq> 0 \<longrightarrow> amount = MaxFee g"
      "MaxFee g = 0 \<longrightarrow> GasPrice g \<noteq> 0 \<longrightarrow> amount = gas * GasPrice g"
    by (auto simp: set_fee_def Let_def split: option.splits go.splits prod.splits if_splits)
  from t1 assms(2) have "Fee t = Some \<lparr>fee_Amount = [Some \<lparr>fa_Amount = Itoa amount, fa_Denom = TOKEN_NAME\<rparr>],
                                       fee_Gas = Itoa gas\<rparr>"
    by simp
  with g a show ?thesis
    by (auto simp: set_fee_def Let_def Atoi_Itoa)
qed

text \<open>
  The fee of what a pass sends: a pass that reaches the response has sent one request,
  with the fee of the fee block; a pass that ends the call has sent that request or none,
  and has sent it when the payload could be signed and the request built.
\<close>

lemma send_Received_fee:
  assumes "send env ctx w (Some txn) (Some g) = Received res txn' w'"
    and "set_fee txn g = Return t1"
  shows "fees w' = fees w @ [Fee t1]" and "set_fee txn' g = Return txn'"
proof -
  let ?m = "random_string env (clock env (count is_clock w)) 32"
  from send_Received [OF assms(1)] obtain txn1 signature where
    t: "set_fee (txn\<lparr>Memo := ?m\<rparr>) g = Return txn1"
    and u: "txn' = txn1\<lparr>Signatures :=
              [Some \<lparr>ts_AccountNumber = Itoa (AccountNumber (account ctx)),
                     ts_PubKey = Some \<lparr>pk_Type = PubKeyAminoName, pk_Value = privateKey_PubKey env\<rparr>,
                     ts_Sequence = Itoa (Sequence (account ctx)),
                     ts_Signature = signature\<rparr>]\<rparr>"
    by auto
  from t assms(2) have "txn1 = t1\<lparr>Memo := ?m\<rparr>"
    by (simp add: set_fee_Memo)
  with u have f: "Fee txn' = Fee t1"
    by simp
  show "fees w' = fees w @ [Fee t1]"
    by (subst send_Received_trace [OF assms(1)]) (simp add: fees_append f)
  show "set_fee txn' g = Return txn'"
    using assms(2) f by (rule set_fee_again)
qed

lemma send_Ended_fee:
  assumes "send env ctx w (Some txn) (Some g) = Ended r w'"
    and "set_fee txn g = Return t1"
  shows "(fees w' = fees w \<or> fees w' = fees w @ [Fee t1])
       \<and> ((\<exists>sg. SignTransaction env ctx (t1\<lparr>Memo := random_string env (clock env (count is_clock w)) 32\<rparr>)
                  = Return (sg, None))
            \<and> request_ok env ''POST'' (Endpoint (options ctx) @ TX_COMMAND)
          \<longrightarrow> fees w' = fees w @ [Fee t1])"
  using assms
  by (auto simp: send_def makeRandomString_def APIMutate_def Let_def fees_append set_fee_Memo
      split: option.splits go.splits prod.splits sum.splits if_splits exchange.splits)

lemma fees_of_call:
  "BroadcastTransaction env ctx w otxn ogas = (r, ctx', w') \<Longrightarrow>
   otxn = Some txn \<Longrightarrow> ogas = Some g \<Longrightarrow> set_fee txn g = Return t1 \<Longrightarrow>
   \<exists>k. fees w' = fees w @ replicate k (Fee t1)
      \<and> ((\<exists>sg. SignTransaction env ctx (t1\<lparr>Memo := random_string env (clock env (count is_clock w)) 32\<rparr>)
                 = Return (sg, None))
           \<and> request_ok env ''POST'' (Endpoint (options ctx) @ TX_COMMAND)
         \<longrightarrow> 0 < k)"
proof (induction env ctx w otxn ogas arbitrary: txn t1 rule: BroadcastTransaction_retry_induct)
  case (call env ctx w otxn ogas)
  let ?sent = "(\<exists>sg. SignTransaction env ctx (t1\<lparr>Memo := random_string env (clock env (count is_clock w)) 32\<rparr>)
                 = Return (sg, None))
           \<and> request_ok env ''POST'' (Endpoint (options ctx) @ TX_COMMAND)"
  have zero: ?case if "fees w' = fees w" "\<not> ?sent"
    using that by (intro exI [of _ 0]) simp
  have one: ?case if "fees w' = fees w @ [Fee t1]"
    using that by (intro exI [of _ 1]) simp
  note s = call.prems(2,3)
  from call.prems(1) show ?case
  proof (cases rule: BroadcastTransaction_cases)
    case (Ended w1)
    from send_Ended_fee [OF Ended(1) [unfolded s] call.prems(4)] Ended(3) zero one show ?thesis
      by blast
  next
    case (Success res txn1)
    from send_Received_fee(1) [OF Success(1) [unfolded s] call.prems(4)] show ?thesis
      by (rule one)
  next
    case (Fatal res txn1)
    from send_Received_fee(1) [OF Fatal(1) [unfolded s] call.prems(4)] show ?thesis
      by (rule one)
  next
    case (Exhausted res txn1)
    from send_Received_fee(1) [OF Exhausted(1) [unfolded s] call.prems(4)] show ?thesis
      by (rule one)
  next
    case (Lookup res txn1 w1 e)
    have "fees w' = fees w1"
      using setAccount_result(1) [OF Lookup(5)] by (simp add: fees_append)
    with send_Received_fee(1) [OF Lookup(1) [unfolded s] call.prems(4)] show ?thesis
      by (intro one) simp
  next
    case (Retry res txn1 w1 ctx2 w2)
    note f = send_Received_fee [OF Retry(1) [unfolded s] call.prems(4)]
    have w2: "fees w2 = fees w1"
      using setAccount_result(1) [OF Retry(5)] by (simp add: fees_append)
    have t: "Fee txn1 = Fee t1"
      using f(1) send_Received_trace [OF Retry(1)] by (simp add: fees_append)
    from call.IH [OF Retry(1-6) refl s(2) f(2)] obtain k where
      "fees w' = fees w2 @ replicate k (Fee txn1)"
      by blast
    with w2 f(1) t have "fees w' = fees w @ replicate (Suc k) (Fee t1)"
      by simp
    then show ?thesis
      by (intro exI [of _ "Suc k"]) simp
  qed
qed

text \<open>
  C3. The broadcast gas and fee amount. The gas is the number \<open>Atoi\<close> reads in the
  template's gas string, replaced by \<open>MaxGas\<close> when \<open>MaxGas\<close> is nonzero and smaller. The
  amount starts from the number read in the first amount of the template (0 when there
  is none or it does not parse); \<open>MaxFee\<close>, when nonzero, replaces it whatever the gas and
  the price are; otherwise a nonzero \<open>GasPrice\<close> makes it the product of the clamped gas
  and the price (in \<open>int\<close>); otherwise it stays. The fee written into the payload is the
  decimal of these two numbers (they read back with \<open>Atoi\<close>), in the token \<open>ubnt\<close>.
  It is the fee of every request that a call of \<open>BroadcastTransaction\<close> sends, at the first
  attempt and at each retry, and the call sends at least one request when the payload
  can be signed and the request built. A template gas of 50 under \<open>MaxGas = 30\<close> gives the
  gas 30.
\<close>

theorem fee_resolution_precedence:
  fixes txn :: TransactionBroadcastPayload and g :: GasInfo and fee :: TransactionFee
  assumes "Fee txn = Some fee"
    and "fee_Amount fee = [] \<or> hd (fee_Amount fee) \<noteq> None"
  defines "gas0 \<equiv> fst (Atoi (fee_Gas fee))"
    and "amount0 \<equiv> (if fee_Amount fee = [] then 0
                      else case Atoi (fa_Amount (the (hd (fee_Amount fee)))) of
                             (a, None) \<Rightarrow> a | (a, Some err) \<Rightarrow> 0)"
  defines "gas \<equiv> (if MaxGas g \<noteq> 0 \<and> sint (MaxGas g) < sint gas0 then MaxGas g else gas0)"
  defines "amount \<equiv> (if MaxFee g \<noteq> 0 then MaxFee g
                     else if GasPrice g \<noteq> 0 then gas * GasPrice g
                     else amount0)"
  defines "fee' \<equiv> \<lparr>fee_Amount = [Some \<lparr>fa_Amount = Itoa amount, fa_Denom = TOKEN_NAME\<rparr>],
                    fee_Gas = Itoa gas\<rparr>"
  shows "set_fee txn g = Return (txn\<lparr>Fee := Some fee'\<rparr>)
       \<and> Atoi (Itoa gas) = (gas, None)
       \<and> Atoi (Itoa amount) = (amount, None)
       \<and> (\<forall>env ctx w res txn' w'.
             send env ctx w (Some txn) (Some g) = Received res txn' w' \<longrightarrow> Fee txn' = Some fee')
       \<and> (gas0 = 50 \<and> MaxGas g = 30 \<longrightarrow> gas = 30)
       \<and> (\<forall>env ctx w r ctx' w'.
             BroadcastTransaction env ctx w (Some txn) (Some g) = (r, ctx', w') \<longrightarrow>
             (\<exists>k. fees w' = fees w @ replicate k (Some fee')
                \<and> ((\<exists>sg. SignTransaction env ctx
                           (txn\<lparr>Fee := Some fee',
                                Memo := random_string env (clock env (count is_clock w)) 32\<rparr>)
                         = Return (sg, None))
                     \<and> request_ok env ''POST'' (Endpoint (options ctx) @ TX_COMMAND)
                   \<longrightarrow> 0 < k)))"
proof -
  have f: "set_fee txn g = Return (txn\<lparr>Fee := Some fee'\<rparr>)"
  proof (cases "fee_Amount fee")
    case Nil
    then show ?thesis
      using assms(1) 
      by (simp add: set_fee_def Let_def fee'_def amount_def gas_def amount0_def gas0_def)
  next
    case (Cons a0 rest)
    with assms(2) obtain a where "a0 = Some a"
      by auto
    with Cons show ?thesis
      using assms(1)
      by (simp add: set_fee_def Let_def fee'_def amount_def gas_def amount0_def gas0_def
          split: prod.splits option.splits)
  qed
  have s: "Fee txn' = Some fee'"
    if "send env ctx w (Some txn) (Some g) = Received res txn' w'" for env ctx w res txn' w'
  proof -
    from send_Received [OF that] obtain txn1 signature where
      t: "set_fee (txn\<lparr>Memo := random_string env (clock env (count is_clock w)) 32\<rparr>) g = Return txn1"
      and u: "txn' = txn1\<lparr>Signatures :=
              [Some \<lparr>ts_AccountNumber = Itoa (AccountNumber (account ctx)),
                     ts_PubKey = Some \<lparr>pk_Type = PubKeyAminoName, pk_Value = privateKey_PubKey env\<rparr>,
                     ts_Sequence = Itoa (Sequence (account ctx)),
                     ts_Signature = signature\<rparr>]\<rparr>"
      by auto
    from t f have "txn1 = txn\<lparr>Fee := Some fee', Memo := random_string env (clock env (count is_clock w)) 32\<rparr>"
      by (simp add: set_fee_Memo)
    with u show ?thesis
      by simp
  qed
  have c: "gas0 = 50 \<and> MaxGas g = 30 \<longrightarrow> gas = 30"
    by (simp add: gas_def)
  have b: "\<exists>k. fees w' = fees w @ replicate k (Some fee')
                \<and> ((\<exists>sg. SignTransaction env ctx
                           (txn\<lparr>Fee := Some fee',
                                Memo := random_string env (clock env (count is_clock w)) 32\<rparr>)
                         = Return (sg, None))
                     \<and> request_ok env ''POST'' (Endpoint (options ctx) @ TX_COMMAND)
                   \<longrightarrow> 0 < k)"
    if "BroadcastTransaction env ctx w (Some txn) (Some g) = (r, ctx', w')" for env ctx w r ctx' w'
    using fees_of_call [OF that refl refl f] by simp
  show ?thesis
    using f s c b by (simp add: Atoi_Itoa)
qed

text \<open>
  A template with gas 50 and the amount 7: under \<open>MaxGas = 30\<close> and the price 5 the fee is
  150 for the gas 30; under \<open>MaxFee = 100\<close> the fee is 100 whatever the price. On the ledger
  that reports the conflict twice and then accepts, a call sends three requests, each with
  the fee 150 for the gas 30.
\<close>

theorem fee_resolution_precedence_witness:
  "set_fee \<lparr>Fee = Some \<lparr>fee_Amount = [Some \<lparr>fa_Amount = ''7'', fa_Denom = ''ubnt''\<rparr>], fee_Gas = ''50''\<rparr>,
            Memo = [], Msg = [], Signatures = []\<rparr>
     \<lparr>MaxGas = 30, MaxFee = 0, GasPrice = 5\<rparr>
   = Return \<lparr>Fee = Some \<lparr>fee_Amount = [Some \<lparr>fa_Amount = ''150'', fa_Denom = ''ubnt''\<rparr>], fee_Gas = ''30''\<rparr>,
             Memo = [], Msg = [], Signatures = []\<rparr>
   \<and> set_fee \<lparr>Fee = Some \<lparr>fee_Amount = [Some \<lparr>fa_Amount = ''7'', fa_Denom = ''ubnt''\<rparr>], fee_Gas = ''50''\<rparr>,
            Memo = [], Msg = [], Signatures = []\<rparr>
     \<lparr>MaxGas = 0, MaxFee = 100, GasPrice = 5\<rparr>
   = Return \<lparr>Fee = Some \<lparr>fee_Amount = [Some \<lparr>fa_Amount = ''100'', fa_Denom = ''ubnt''\<rparr>], fee_Gas = ''50''\<rparr>,
             Memo = [], Msg = [], Signatures = []\<rparr>
   \<and> (\<exists>k. 0 < k
        \<and> fees (snd (snd (BroadcastTransaction retry_ledger stub_client [] (Some stub_payload)
                            (Some stub_gas))))
          = replicate k (Some \<lparr>fee_Amount = [Some \<lparr>fa_Amount = ''150'', fa_Denom = ''ubnt''\<rparr>],
                                fee_Gas = ''30''\<rparr>))
   \<and> fees (snd (snd (BroadcastTransaction retry_ledger stub_client [] (Some stub_payload)
                        (Some stub_gas))))
     = [Some \<lparr>fee_Amount = [Some \<lparr>fa_Amount = ''150'', fa_Denom = ''ubnt''\<rparr>], fee_Gas = ''30''\<rparr>,
        Some \<lparr>fee_Amount = [Some \<lparr>fa_Amount = ''150'', fa_Denom = ''ubnt''\<rparr>], fee_Gas = ''30''\<rparr>,
        Some \<lparr>fee_Amount = [Some \<lparr>fa_Amount = ''150'', fa_Denom = ''ubnt''\<rparr>], fee_Gas = ''30''\<rparr>]"
proof -
  have a: "Atoi ''50'' = (50, None)" "Atoi ''7'' = (7, None)"
    by (simp_all add: Atoi_def is_digit_def digit_val_def)
  have i: "Itoa 150 = ''150''" "Itoa 30 = ''30''" "Itoa 100 = ''100''" "Itoa 50 = ''50''"
    by (simp_all add: Itoa_def FormatInt_def FormatNat.simps digit_char_def)
  let ?t = "\<lparr>Fee = Some \<lparr>fee_Amount = [Some \<lparr>fa_Amount = ''7'', fa_Denom = ''ubnt''\<rparr>], fee_Gas = ''50''\<rparr>,
             Memo = [], Msg = [], Signatures = []\<rparr>"
  let ?f = "\<lparr>fee_Amount = [Some \<lparr>fa_Amount = ''7'', fa_Denom = ''ubnt''\<rparr>], fee_Gas = ''50''\<rparr>"
  have one: "set_fee ?t \<lparr>MaxGas = 30, MaxFee = 0, GasPrice = 5\<rparr>
     = Return \<lparr>Fee = Some \<lparr>fee_Amount = [Some \<lparr>fa_Amount = ''150'', fa_Denom = ''ubnt''\<rparr>], fee_Gas = ''30''\<rparr>,
               Memo = [], Msg = [], Signatures = []\<rparr>"
    using fee_resolution_precedence
        [of ?t ?f "\<lparr>MaxGas = 30, MaxFee = 0, GasPrice = 5\<rparr>", THEN conjunct1]
    by (simp add: a i TOKEN_NAME_def)
  have two: "set_fee ?t \<lparr>MaxGas = 0, MaxFee = 100, GasPrice = 5\<rparr>
     = Return \<lparr>Fee = Some \<lparr>fee_Amount = [Some \<lparr>fa_Amount = ''100'', fa_Denom = ''ubnt''\<rparr>], fee_Gas = ''50''\<rparr>,
               Memo = [], Msg = [], Signatures = []\<rparr>"
    using fee_resolution_precedence
        [of ?t ?f "\<lparr>MaxGas = 0, MaxFee = 100, GasPrice = 5\<rparr>", THEN conjunct1]
    by (simp add: a i TOKEN_NAME_def)
  let ?run = "BroadcastTransaction retry_ledger stub_client [] (Some stub_payload) (Some stub_gas)"
  let ?fee = "Some \<lparr>fee_Amount = [Some \<lparr>fa_Amount = ''150'', fa_Denom = ''ubnt''\<rparr>], fee_Gas = ''30''\<rparr>"
  obtain r ctx' w' where run: "?run = (r, ctx', w')"
    by (cases ?run) auto
  have sg: "\<exists>sg. SignTransaction retry_ledger stub_client
               (stub_payload\<lparr>Fee := ?fee, Memo := random_string retry_ledger 0 32\<rparr>)
             = Return (sg, None)"
    by (simp add: retry_ledger_def run_defs)
  from fee_resolution_precedence
        [of stub_payload "\<lparr>fee_Amount = [], fee_Gas = ''50''\<rparr>" stub_gas,
         THEN conjunct2, THEN conjunct2, THEN conjunct2, THEN conjunct2, THEN conjunct2,
         rule_format, OF _ _ run]
  obtain k where k: "fees w' = replicate k ?fee" "0 < k"
    using sg by (auto simp: stub_payload_def stub_gas_def a i TOKEN_NAME_def retry_ledger_def
        stub_ledger_def stub_client_def count_def TX_COMMAND_def)
  have three: "\<exists>k. 0 < k \<and> fees (snd (snd ?run)) = replicate k ?fee"
    using run k by auto
  have four: "fees (snd (snd ?run)) = [?fee, ?fee, ?fee]"
    by (simp add: retry_ledger_def conflict_then_success_def run_defs BroadcastTransaction.simps
        fees_def List.map_filter_def upt_32)
  show ?thesis
    using one two three four by blast
qed

subsection \<open>A submission without a gas policy\<close>

lemma BroadcastTransaction_no_gas:
  "BroadcastTransaction env ctx w otxn None =
     ((case otxn of
         None \<Rightarrow> Panic nil_dereference
       | Some txn \<Rightarrow> Return (None, Some (Errorf ''gas_info is required''))),
      ctx, w @ [ClockRead])"
  by (subst BroadcastTransaction.simps)
     (simp add: send_def makeRandomString_def Let_def split: option.splits)

text \<open>
  C2, as the code has it. The gas policy is checked inside \<open>BroadcastTransaction\<close>, which
  \<open>ProcessTransaction\<close> calls after \<open>ValidateTransaction\<close>. A submission without a gas policy
  therefore issues the validate request (one HTTP exchange, when the request can be
  built) and nothing else: no broadcast request, no account lookup, and the client is
  left as it was. When the validate step yields a payload, the submission returns the
  error \<open>gas_info is required\<close>.
\<close>

theorem no_gas_policy_fails_after_validate:
  assumes "txn_GasInfo txn = None"
  shows "\<exists>r es. SendTransaction env ctx w txn = (r, ctx, w @ es)
       \<and> count is_broadcast es = 0 \<and> count is_lookup es = 0
       \<and> count is_http es =
           (if request_ok env (ApiRequestMethod txn) (Endpoint (options ctx) @ ApiRequestEndpoint txn)
            then 1 else 0)
       \<and> (\<forall>p. fst (ValidateTransaction env ctx w txn) = Return (Some p, None) \<longrightarrow>
             r = Return (None, Some (Errorf ''gas_info is required'')))"
proof -
  obtain v w1 where v: "ValidateTransaction env ctx w txn = (v, w1)"
    by (cases "ValidateTransaction env ctx w txn") auto
  from ValidateTransaction_trace [OF v] obtain es1 where
    es1: "w1 = w @ es1" "count is_lookup es1 = 0" "count is_broadcast es1 = 0"
      "count is_http es1 =
         (if request_ok env (ApiRequestMethod txn) (Endpoint (options ctx) @ ApiRequestEndpoint txn)
          then 1 else 0)"
    by auto
  have c: "count is_broadcast (es1 @ [ClockRead]) = 0" "count is_lookup (es1 @ [ClockRead]) = 0"
    "count is_http (es1 @ [ClockRead]) = count is_http es1"
    using es1 by (simp_all add: count_append) (simp_all add: count_def is_broadcast_def)
  show ?thesis
  proof (cases v)
    case (Panic p)
    with v es1 show ?thesis
      by (auto simp: SendTransaction_def ProcessTransaction_def Let_def
          ValidateTransaction_ignores_retries)
  next
    case (Return pe)
    obtain payload err where pe: "pe = (payload, err)"
      by (cases pe) auto
    show ?thesis
    proof (cases err)
      case (Some e)
      with v es1 Return pe show ?thesis
        by (auto simp: SendTransaction_def ProcessTransaction_def Let_def
            ValidateTransaction_ignores_retries)
    next
      case None
      have "SendTransaction env ctx w txn =
              ((case payload of
                  None \<Rightarrow> Panic nil_dereference
                | Some t \<Rightarrow> Return (None, Some (Errorf ''gas_info is required''))),
               ctx, w @ (es1 @ [ClockRead]))"
        using v es1(1) Return pe None assms
        by (simp add: SendTransaction_def ProcessTransaction_def Let_def
            ValidateTransaction_ignores_retries BroadcastTransaction_no_gas
            split: option.splits)
      moreover have "\<forall>p. fst (ValidateTransaction env ctx w txn) = Return (Some p, None) \<longrightarrow>
          (case payload of
                  None \<Rightarrow> Panic nil_dereference
                | Some t \<Rightarrow> Return (None, Some (Errorf ''gas_info is required'')))
          = Return (None, Some (Errorf ''gas_info is required''))"
        using v Return pe by auto
      ultimately show ?thesis
        using c es1(4) by metis
    qed
  qed
qed

lemma stub_no_gas_run:
  "SendTransaction (stub_ledger template_body (\<lambda>n. conflict_body)) stub_client [] (stub_txn None)
   = (Return (None, Some (Errorf ''gas_info is required'')), stub_client,
      [HttpExchange
         \<lparr>rq_Method = ''POST'', rq_URL = ''http://localhost:1317/crud/create'',
          rq_Body = Marshal_TransactionValidateRequest
            \<lparr>vq_BaseReq = Some \<lparr>br_From = ''bluzelle1'', br_ChainId = ''bluzelle''\<rparr>,
             vq_Key = ''k'', vq_KeyValues = [], vq_Lease = ''0'', vq_N = ''0'', vq_NewKey = [],
             vq_Owner = ''bluzelle1'', vq_UUID = ''u'', vq_Value = ''v''\<rparr>\<rparr>,
       ClockRead])"
  by (simp add: run_defs BroadcastTransaction.simps)

text \<open>
  The claim as stated fails: against the stub ledger, the submission without a gas policy
  returns \<open>gas_info is required\<close> with the validate request in its trace.
\<close>

theorem no_gas_policy_counterexample:
  "fst (SendTransaction conflict_ledger stub_client [] (stub_txn None))
     = Return (None, Some (Errorf ''gas_info is required''))
   \<and> filter is_http (snd (snd (SendTransaction conflict_ledger stub_client [] (stub_txn None))))
     = [HttpExchange
         \<lparr>rq_Method = ''POST'', rq_URL = ''http://localhost:1317/crud/create'',
          rq_Body = Marshal_TransactionValidateRequest
            \<lparr>vq_BaseReq = Some \<lparr>br_From = ''bluzelle1'', br_ChainId = ''bluzelle''\<rparr>,
             vq_Key = ''k'', vq_KeyValues = [], vq_Lease = ''0'', vq_N = ''0'', vq_NewKey = [],
             vq_Owner = ''bluzelle1'', vq_UUID = ''u'', vq_Value = ''v''\<rparr>\<rparr>]"
  by (simp add: conflict_ledger_def stub_no_gas_run)

theorem no_gas_policy_fails_after_validate_witness:
  "\<exists>es. SendTransaction (stub_ledger template_body (\<lambda>n. conflict_body)) stub_client [] (stub_txn None)
         = (Return (None, Some (Errorf ''gas_info is required'')), stub_client, es)
       \<and> count is_broadcast es = 0 \<and> count is_lookup es = 0 \<and> count is_http es = 1"
proof -
  let ?env = "stub_ledger template_body (\<lambda>n. conflict_body)"
  have g: "txn_GasInfo (stub_txn None) = None"
    by (simp add: stub_txn_def)
  have v: "\<exists>p. fst (ValidateTransaction ?env stub_client [] (stub_txn None)) = Return (Some p, None)"
    by (simp add: run_defs)
  have k: "request_ok ?env (ApiRequestMethod (stub_txn None))
             (Endpoint (options stub_client) @ ApiRequestEndpoint (stub_txn None))"
    by (simp add: stub_ledger_def)
  from no_gas_policy_fails_after_validate [OF g, of ?env stub_client "[]"] v k
  show ?thesis
    by auto
qed

end
